theory Spec2Isabelle
  imports Complex_Main "HOL-Library.Sublist"
begin

section \<open>Python values used by the add-on\<close>

text \<open>
  Exceptions the modelled functions can raise. A raise is a value: a statement returns
  the exception or the updated state.
\<close>

datatype exn = KeyError | IndexError | ValueError | TypeError | StopIteration
  | FileNotFoundError | IOError | ZeroDivisionError | NameError

text \<open>\<^verbatim>\<open>xs[i]\<close> for a non-negative constant index: IndexError out of range.\<close>

definition item :: "'a list \<Rightarrow> nat \<Rightarrow> exn + 'a" where
  "item xs i = (if i < length xs then Inr (xs ! i) else Inl IndexError)"

text \<open>
  A character is a code point below 256. \<^verbatim>\<open>str.isspace\<close> holds there of tab, LF, VT,
  FF, CR, FS, GS, RS, US, the blank, NEL (0x85) and the no-break space (0xA0); these are
  what \<^verbatim>\<open>strip\<close>, \<^verbatim>\<open>rstrip\<close> and \<^verbatim>\<open>int\<close> remove.
\<close>

definition py_isspace :: "char \<Rightarrow> bool" where
  "py_isspace c =
     (let n = (of_char c :: nat)
      in n = 32 \<or> (9 \<le> n \<and> n \<le> 13) \<or> (28 \<le> n \<and> n \<le> 31) \<or> n = 133 \<or> n = 160)"

definition rstrip :: "string \<Rightarrow> string" where
  "rstrip s = rev (dropWhile py_isspace (rev s))"

definition strip :: "string \<Rightarrow> string" where
  "strip s = dropWhile py_isspace (rstrip s)"

text \<open>\<^verbatim>\<open>s.find(sub)\<close>: the least index where \<open>sub\<close> starts, or -1.\<close>

fun find_from :: "string \<Rightarrow> string \<Rightarrow> nat \<Rightarrow> int" where
  "find_from sub [] i = (if sub = [] then int i else - 1)"
| "find_from sub (c # cs) i = (if prefix sub (c # cs) then int i else find_from sub cs (Suc i))"

definition find :: "string \<Rightarrow> string \<Rightarrow> int" where
  "find s sub = find_from sub s 0"

text \<open>\<^verbatim>\<open>sub in s\<close> on strings.\<close>

definition contains :: "string \<Rightarrow> string \<Rightarrow> bool" where
  "contains s sub = (0 \<le> find s sub)"

text \<open>
  \<^verbatim>\<open>s[a:b]\<close> with Python's index rules: a negative index counts from the end, both
  are clipped to the string.
\<close>

definition clip :: "string \<Rightarrow> int \<Rightarrow> nat" where
  "clip s i = (let n = int (length s) in nat (min n (max 0 (if i < 0 then n + i else i))))"

definition slice :: "string \<Rightarrow> int \<Rightarrow> int \<Rightarrow> string" where
  "slice s a b = drop (clip s a) (take (clip s b) s)"

text \<open>\<^verbatim>\<open>s[a:]\<close> and \<open>s[:-1]\<close>.\<close>

definition slice_from :: "string \<Rightarrow> int \<Rightarrow> string" where
  "slice_from s a = drop (clip s a) s"


text \<open>
  \<^verbatim>\<open>int(s)\<close> in base 10: surrounding whitespace, one optional sign, decimal digits (below
  code point 256 only the ASCII ones are), single underscores between digits. Anything
  else raises ValueError (\<open>None\<close>).
\<close>

definition is_digit :: "char \<Rightarrow> bool" where
  "is_digit c = (let n = (of_char c :: nat) in 48 \<le> n \<and> n \<le> 57)"

definition digit_val :: "char \<Rightarrow> nat" where
  "digit_val c = of_char c - 48"

fun parse_digits :: "nat \<Rightarrow> string \<Rightarrow> nat option" where
  "parse_digits acc [] = Some acc"
| "parse_digits acc [c] = (if is_digit c then Some (acc * 10 + digit_val c) else None)"
| "parse_digits acc (c # d # cs) =
     (if is_digit c then parse_digits (acc * 10 + digit_val c) (d # cs)
      else if c = CHR ''_'' \<and> is_digit d then parse_digits acc (d # cs)
      else None)"

definition py_nat :: "string \<Rightarrow> nat option" where
  "py_nat s = (case s of [] \<Rightarrow> None | c # cs \<Rightarrow> if is_digit c then parse_digits 0 s else None)"

definition py_int :: "string \<Rightarrow> int option" where
  "py_int s =
     (case strip s of
        [] \<Rightarrow> None
      | c # cs \<Rightarrow>
          if c = CHR ''-'' then map_option (\<lambda>n. - int n) (py_nat cs)
          else if c = CHR ''+'' then map_option int (py_nat cs)
          else map_option int (py_nat (c # cs)))"

definition int_of :: "string \<Rightarrow> exn + int" where
  "int_of s = (case py_int s of None \<Rightarrow> Inl ValueError | Some n \<Rightarrow> Inr n)"

text \<open>\<^verbatim>\<open>str(n)\<close> for an integer: decimal digits, a minus sign when negative.\<close>

fun digits_fuel :: "nat \<Rightarrow> nat \<Rightarrow> string" where
  "digits_fuel 0 n = []"
| "digits_fuel (Suc k) n =
     (if n < 10 then [char_of (48 + n)] else digits_fuel k (n div 10) @ [char_of (48 + n mod 10)])"

definition str_nat :: "nat \<Rightarrow> string" where
  "str_nat n = digits_fuel (Suc n) n"

definition str_int :: "int \<Rightarrow> string" where
  "str_int i = (if i < 0 then CHR ''-'' # str_nat (nat (- i)) else str_nat (nat i))"

text \<open>
  A run of statements on a mutable object: each statement either raises, leaving the
  object as the statements before it left it, or yields the updated object.
\<close>

fun run :: "('s \<Rightarrow> exn + 's) list \<Rightarrow> 's \<Rightarrow> exn option \<times> 's" where
  "run [] s = (None, s)"
| "run (f # fs) s = (case f s of Inl e \<Rightarrow> (Some e, s) | Inr s' \<Rightarrow> run fs s')"

section \<open>The entity registry\<close>

text \<open>
  Nodes, elements and reference frames are property groups kept in ordered collections
  that are read by position and by name (\<^verbatim>\<open>nd[0]\<close>, \<^verbatim>\<open>nd['node_1']\<close>).
\<close>

record entity =
  name :: string
  int_label :: int
  string_label :: string
  blender_object :: string
  is_imported :: bool

record node = entity +
  parametrization :: string
  output_flag :: bool

type_synonym vec = "real \<times> real \<times> real"

record elem = entity +
  mbclass :: string
  etype :: string
  nodes :: "int list"
  offsets :: "vec list"
  import_function :: string
  info_draw :: string
  update :: string

text \<open>\<^verbatim>\<open>coll[key]\<close> with a string key: the position of the first item of that name.\<close>

fun index_of :: "('a \<Rightarrow> bool) \<Rightarrow> 'a list \<Rightarrow> nat option" where
  "index_of P [] = None"
| "index_of P (x # xs) = (if P x then Some 0 else map_option Suc (index_of P xs))"

definition key_index :: "('a entity_scheme) list \<Rightarrow> string \<Rightarrow> nat option" where
  "key_index coll k = index_of (\<lambda>x. name x = k) coll"

section \<open>beamlib: the beam3 declaration parser\<close>

text \<open>
  \<^verbatim>\<open>float(s)\<close> belongs to the interpreter; it is a parameter \<open>fl\<close> of the model, \<open>None\<close>
  where it raises ValueError. A \<^verbatim>\<open>Vector\<close> of three parsed columns:
\<close>

definition vector3 :: "(string \<Rightarrow> real option) \<Rightarrow> string list \<Rightarrow> nat \<Rightarrow> nat \<Rightarrow> nat \<Rightarrow> exn + vec" where
  "vector3 fl rw i j k =
     (case item rw i of Inl e \<Rightarrow> Inl e | Inr a \<Rightarrow>
      (case fl a of None \<Rightarrow> Inl ValueError | Some x \<Rightarrow>
      (case item rw j of Inl e \<Rightarrow> Inl e | Inr b \<Rightarrow>
      (case fl b of None \<Rightarrow> Inl ValueError | Some y \<Rightarrow>
      (case item rw k of Inl e \<Rightarrow> Inl e | Inr c \<Rightarrow>
      (case fl c of None \<Rightarrow> Inl ValueError | Some z \<Rightarrow> Inr (x, y, z)))))))"

text \<open>\<^verbatim>\<open>int(rw[i])\<close>.\<close>

definition int_col :: "string list \<Rightarrow> nat \<Rightarrow> exn + int" where
  "int_col rw i = (case item rw i of Inl e \<Rightarrow> Inl e | Inr a \<Rightarrow> int_of a)"

text \<open>
  \<^verbatim>\<open>el.nodes[i].int_label = int(rw[c])\<close>: the right-hand side is evaluated first, then
  the subscript, which raises IndexError past the end of the collection.
\<close>

definition set_node :: "string list \<Rightarrow> nat \<Rightarrow> nat \<Rightarrow> elem \<Rightarrow> exn + elem" where
  "set_node rw i c el =
     (case int_col rw c of Inl e \<Rightarrow> Inl e | Inr v \<Rightarrow>
        if i < length (nodes el) then Inr (el\<lparr>nodes := (nodes el)[i := v]\<rparr>) else Inl IndexError)"

text \<open>\<^verbatim>\<open>el.offsets[i].value = Vector((float(rw[a]), float(rw[b]), float(rw[c])))\<close>.\<close>

definition set_offset ::
  "(string \<Rightarrow> real option) \<Rightarrow> string list \<Rightarrow> nat \<Rightarrow> nat \<Rightarrow> nat \<Rightarrow> nat \<Rightarrow> elem \<Rightarrow> exn + elem" where
  "set_offset fl rw i a b c el =
     (case vector3 fl rw a b c of Inl e \<Rightarrow> Inl e | Inr v \<Rightarrow>
        if i < length (offsets el) then Inr (el\<lparr>offsets := (offsets el)[i := v]\<rparr>) else Inl IndexError)"

text \<open>
  \<^verbatim>\<open>el.nodes.add()\<close> and \<^verbatim>\<open>el.offsets.add()\<close> append an item holding the property's
  default (an integer 0, a zero vector).
\<close>

definition nodes_add :: "elem \<Rightarrow> exn + elem" where
  "nodes_add el = Inr (el\<lparr>nodes := nodes el @ [0]\<rparr>)"

definition offsets_add :: "elem \<Rightarrow> exn + elem" where
  "offsets_add el = Inr (el\<lparr>offsets := offsets el @ [(0, 0, 0)]\<rparr>)"

definition set_int_label :: "string list \<Rightarrow> nat \<Rightarrow> elem \<Rightarrow> exn + elem" where
  "set_int_label rw c el = (case int_col rw c of Inl e \<Rightarrow> Inl e | Inr v \<Rightarrow> Inr (el\<lparr>int_label := v\<rparr>))"

text \<open>The statements of the branch taken when the element is already in the registry.\<close>

definition beam3_update :: "(string \<Rightarrow> real option) \<Rightarrow> string list \<Rightarrow> (elem \<Rightarrow> exn + elem) list" where
  "beam3_update fl rw =
     [\<lambda>el. Inr (el\<lparr>is_imported := False\<rparr>),
      set_node rw 0 2,
      set_node rw 1 6,
      set_node rw 2 10,
      set_offset fl rw 0 3 4 5,
      set_offset fl rw 1 7 8 9,
      set_offset fl rw 1 11 12 13,
      \<lambda>el. Inr (el\<lparr>mbclass := ''elem.beam''\<rparr>),
      \<lambda>el. Inr (el\<lparr>is_imported := True\<rparr>)]"

text \<open>The statements of the \<^verbatim>\<open>except KeyError\<close> branch, after \<^verbatim>\<open>el = ed.add()\<close>.\<close>

definition beam3_create :: "(string \<Rightarrow> real option) \<Rightarrow> string list \<Rightarrow> (elem \<Rightarrow> exn + elem) list" where
  "beam3_create fl rw =
     [\<lambda>el. Inr (el\<lparr>mbclass := ''elem.beam''\<rparr>),
      \<lambda>el. Inr (el\<lparr>etype := ''beam3''\<rparr>),
      set_int_label rw 1,
      nodes_add,
      set_node rw 0 2,
      offsets_add,
      set_offset fl rw 0 3 4 5,
      nodes_add,
      set_node rw 1 6,
      offsets_add,
      set_offset fl rw 1 7 8 9,
      nodes_add,
      set_node rw 2 10,
      offsets_add,
      set_offset fl rw 2 11 12 13,
      \<lambda>el. Inr (el\<lparr>import_function := ''blendyn.import_beam3''\<rparr>),
      \<lambda>el. Inr (el\<lparr>info_draw := ''beam3_info_draw''\<rparr>),
      \<lambda>el. Inr (el\<lparr>update := ''update_beam3''\<rparr>),
      \<lambda>el. Inr (el\<lparr>name := etype el @ ''_'' @ str_int (int_label el)\<rparr>),
      \<lambda>el. Inr (el\<lparr>is_imported := True\<rparr>)]"

text \<open>
  \<^verbatim>\<open>parse_beam3(rw, ed)\<close>. \<open>fresh\<close> holds the defaults of the element property
  group, declared outside these sources; the item \<^verbatim>\<open>ed.add()\<close> appends has them, and
  empty \<^verbatim>\<open>nodes\<close> and \<^verbatim>\<open>offsets\<close> collections. The result is the raised exception or
  the returned flag, with the collection as the call left it.
\<close>

definition parse_beam3 ::
  "(string \<Rightarrow> real option) \<Rightarrow> elem \<Rightarrow> string list \<Rightarrow> elem list \<Rightarrow> (exn + bool) \<times> elem list" where
  "parse_beam3 fl fresh rw ed =
     (case item rw 1 of
        Inl e \<Rightarrow> (Inl e, ed)
      | Inr l \<Rightarrow>
          (case key_index ed (''beam3_'' @ l) of
             Some i \<Rightarrow>
               (case run (beam3_update fl rw) (ed ! i) of
                  (Some e, el) \<Rightarrow> (Inl e, ed[i := el])
                | (None, el) \<Rightarrow> (Inr True, ed[i := el]))
           | None \<Rightarrow>
               (case run (beam3_create fl rw) (fresh\<lparr>nodes := [], offsets := []\<rparr>) of
                  (Some e, el) \<Rightarrow> (Inl e, ed @ [el])
                | (None, el) \<Rightarrow> (Inr False, ed @ [el]))))"

section \<open>baselib: interpolation between bracketing samples\<close>

text \<open>
  Floats are idealised as reals. In \<^verbatim>\<open>set_motion_paths_mov\<close> the two bracketing rows of
  the text output are numpy arrays and the interpolated row is
  \<^verbatim>\<open>frac*first_mov[ndx] + (1 - frac)*second_mov[ndx]\<close>: the operators act componentwise,
  an array of one component is stretched to the length of the other, and arrays of other
  unequal lengths raise ValueError.
\<close>

definition broadcast :: "real list \<Rightarrow> nat \<Rightarrow> real list" where
  "broadcast xs n = (if length xs = 1 then replicate n (hd xs) else xs)"

definition array_add :: "real list \<Rightarrow> real list \<Rightarrow> exn + real list" where
  "array_add xs ys =
     (if length xs = length ys \<or> length xs = 1 \<or> length ys = 1
      then Inr (map2 (+) (broadcast xs (length ys)) (broadcast ys (length xs)))
      else Inl ValueError)"

definition scale :: "real \<Rightarrow> real list \<Rightarrow> real list" where
  "scale c xs = map (\<lambda>x. c * x) xs"

definition interp_mov :: "real \<Rightarrow> real list \<Rightarrow> real list \<Rightarrow> exn + real list" where
  "interp_mov fr first_mov second_mov =
     array_add (scale fr first_mov) (scale (1 - fr) second_mov)"

text \<open>
  \<^verbatim>\<open>Vector.lerp\<close> is a function of the mathutils library: \<^verbatim>\<open>a.lerp(b, f)\<close> is
  \<^verbatim>\<open>(1 - f)*a + f*b\<close>; the comment in \<^verbatim>\<open>netcdf_helper\<close> reads the call the same way
  (\<^verbatim>\<open>first*frac + second*(1 - frac)\<close>).
\<close>

definition lerp :: "vec \<Rightarrow> vec \<Rightarrow> real \<Rightarrow> vec" where
  "lerp a b f =
     (case a of (a1, a2, a3) \<Rightarrow> case b of (b1, b2, b3) \<Rightarrow>
        ((1 - f) * a1 + f * b1, (1 - f) * a2 + f * b2, (1 - f) * a3 + f * b3))"

text \<open>\<^verbatim>\<open>int(x)\<close> on a float truncates towards zero; \<^verbatim>\<open>v[i]\<close> on an array counts a
  negative index from the end and raises IndexError out of range.\<close>

definition trunc :: "real \<Rightarrow> int" where
  "trunc x = (if 0 \<le> x then \<lfloor>x\<rfloor> else \<lceil>x\<rceil>)"

definition sample :: "'a list \<Rightarrow> int \<Rightarrow> exn + 'a" where
  "sample v i =
     (let n = int (length v); j = (if i < 0 then n + i else i)
      in if 0 \<le> j \<and> j < n then Inr (v ! nat j) else Inl IndexError)"

text \<open>
  \<^verbatim>\<open>netcdf_helper(nc, scene, key)\<close>: \<open>v\<close> is the array \<^verbatim>\<open>nc.variables[key]\<close>, one vector per
  timestep, \<open>frame_current\<close> the integer \<^verbatim>\<open>scene.frame_current\<close> and \<open>freq\<close> the float
  \<^verbatim>\<open>mbs.load_frequency\<close>.
\<close>

definition netcdf_helper :: "vec list \<Rightarrow> int \<Rightarrow> real \<Rightarrow> exn + vec" where
  "netcdf_helper v frame_current freq =
     (let tdx = of_int frame_current * freq;
          fr = of_int \<lceil>tdx\<rceil> - tdx
      in case sample v (trunc tdx) of
           Inl e \<Rightarrow> Inl e
         | Inr first \<Rightarrow>
             (case sample v \<lceil>tdx\<rceil> of
                Inl e \<Rightarrow> Inl e
              | Inr second \<Rightarrow> Inr (lerp first second (1 - fr))))"

section \<open>The scene settings and the status values\<close>

type_synonym reference = entity

text \<open>
  The settings object \<^verbatim>\<open>context.scene.mbdyn\<close>, with the collections \<^verbatim>\<open>mbs.nodes\<close>
  (\<open>mbs_nodes\<close> here, \<open>nodes\<close> being the field of an element), \<^verbatim>\<open>mbs.elems\<close> and
  \<^verbatim>\<open>mbs.references\<close>. Times are floats in the source and reals here.
\<close>

record settings =
  mbs_nodes :: "node list"
  elems :: "elem list"
  references :: "reference list"
  free_labels :: bool
  use_netcdf :: bool
  num_rows :: int
  num_nodes :: int
  num_timesteps :: int
  min_node_import :: int
  max_node_import :: int
  min_elem_import :: int
  max_elem_import :: int
  is_ready :: bool
  time_step :: real
  start_time :: real
  end_time :: real

text \<open>The one-string sets the functions return; \<open>EMPTY\<close> is \<^verbatim>\<open>{''}\<close>.\<close>

datatype status = EMPTY | FINISHED | MODEL_INCONSISTENT | NODES_INCONSISTENT
  | ELEMS_INCONSISTENT | LOG_NOT_FOUND | ROTATION_ERROR | NODES_NOT_FOUND | OUT_NOT_FOUND
  | LABELS_UPDATED | NOTHING_DONE | FILE_NOT_FOUND | CANCELLED

section \<open>baselib: assign_labels\<close>

definition set_strings_any :: "string list" where
  "set_strings_any = [''  const integer'', ''  integer'']"

definition set_strings_node :: "string list" where
  "set_strings_node =
     [''  const integer Node_'', ''  integer Node_'',
      ''  const integer node_'', ''  integer node_'',
      ''  const integer NODE_'', ''  integer NODE_'']"

text \<open>
  In the source no comma follows the second literal of this list, so the second and the
  third literal are one string.
\<close>

definition set_strings_joint :: "string list" where
  "set_strings_joint =
     [''  const integer Joint_'', ''  integer Joint_'' @ ''  const integer joint_'',
      ''  integer joint_'',
      ''  const integer JOINT_'', ''  integer JOINT_'']"

definition set_strings_beam :: "string list" where
  "set_strings_beam =
     [''  const integer Beam_'', ''  integer Beam_'',
      ''  const integer beam_'', ''  integer beam_'',
      ''  const integer BEAM_'', ''  integer BEAM_'']"

definition set_strings_refs :: "string list" where
  "set_strings_refs =
     [''  const integer Ref_'', ''  integer Ref_'',
      ''  const integer ref_'', ''  integer ref_'',
      ''  const integer REF_'', ''  integer REF_'',
      ''  const integer Reference_'', ''  integer Reference_'',
      ''  const integer reference_'', ''  integer reference_'',
      ''  const integer REFERENCE_'', ''  integer REFERENCE_'']"

text \<open>
  The loop of \<^verbatim>\<open>assign_label\<close> over the collection: the first item with the integer label
  is the only one looked at; it is rewritten, and True returned, when its string label
  differs.
\<close>

fun set_label :: "int \<Rightarrow> string \<Rightarrow> ('a entity_scheme) list \<Rightarrow> bool \<times> ('a entity_scheme) list" where
  "set_label l s [] = (False, [])"
| "set_label l s (x # xs) =
     (if int_label x = l
      then (if string_label x \<noteq> s then (True, x\<lparr>string_label := s\<rparr> # xs) else (False, x # xs))
      else (case set_label l s xs of (b, ys) \<Rightarrow> (b, x # ys)))"

text \<open>\<^verbatim>\<open>eq_idx\<close> and \<^verbatim>\<open>label_int = int(line_str[eq_idx:].strip())\<close>.\<close>

definition eq_idx :: "string \<Rightarrow> int" where
  "eq_idx line_str = find line_str ''='' + 1"

definition label_int :: "string \<Rightarrow> exn + int" where
  "label_int line = (let line_str = rstrip line in int_of (strip (slice_from line_str (eq_idx line_str))))"

definition label_str :: "bool \<Rightarrow> string \<Rightarrow> string \<Rightarrow> string \<Rightarrow> string" where
  "label_str free line entity_type set_string =
     (let line_str = rstrip line in
      if free then strip (slice line_str (int (length set_string)) (eq_idx line_str - 1))
      else strip (slice line_str (int (length set_string) - int (length entity_type) - 1)
                    (eq_idx line_str - 1)))"

definition assign_label ::
  "bool \<Rightarrow> string \<Rightarrow> string \<Rightarrow> string \<Rightarrow> ('a entity_scheme) list \<Rightarrow> exn + bool \<times> ('a entity_scheme) list" where
  "assign_label free line entity_type set_string the_dict =
     (case label_int line of
        Inl e \<Rightarrow> Inl e
      | Inr l \<Rightarrow> Inr (set_label l (label_str free line entity_type set_string) the_dict))"

text \<open>\<^verbatim>\<open>labels_changed += assign_label(...)\<close> on each of the three collections.\<close>

definition label_nd :: "string \<Rightarrow> string \<Rightarrow> string \<Rightarrow> nat \<times> settings \<Rightarrow> (exn + nat) \<times> settings" where
  "label_nd line entity_type set_string cm =
     (case assign_label (free_labels (snd cm)) line entity_type set_string (mbs_nodes (snd cm)) of
        Inl e \<Rightarrow> (Inl e, snd cm)
      | Inr (b, coll) \<Rightarrow> (Inr (fst cm + of_bool b), (snd cm)\<lparr>mbs_nodes := coll\<rparr>))"

definition label_ed :: "string \<Rightarrow> string \<Rightarrow> string \<Rightarrow> nat \<times> settings \<Rightarrow> (exn + nat) \<times> settings" where
  "label_ed line entity_type set_string cm =
     (case assign_label (free_labels (snd cm)) line entity_type set_string (elems (snd cm)) of
        Inl e \<Rightarrow> (Inl e, snd cm)
      | Inr (b, coll) \<Rightarrow> (Inr (fst cm + of_bool b), (snd cm)\<lparr>elems := coll\<rparr>))"

definition label_rd :: "string \<Rightarrow> string \<Rightarrow> string \<Rightarrow> nat \<times> settings \<Rightarrow> (exn + nat) \<times> settings" where
  "label_rd line entity_type set_string cm =
     (case assign_label (free_labels (snd cm)) line entity_type set_string (references (snd cm)) of
        Inl e \<Rightarrow> (Inl e, snd cm)
      | Inr (b, coll) \<Rightarrow> (Inr (fst cm + of_bool b), (snd cm)\<lparr>references := coll\<rparr>))"

text \<open>
  The body of \<^verbatim>\<open>for line in lf\<close>, on the counter \<^verbatim>\<open>labels_changed\<close> and the settings.
  \<open>List.find (contains line)\<close> is the inner \<^verbatim>\<open>for set_string in ...: if set_string in line\<close>
  with its \<^verbatim>\<open>break\<close>.
\<close>

definition label_line_free :: "string \<Rightarrow> nat \<times> settings \<Rightarrow> (exn + nat) \<times> settings" where
  "label_line_free line cm =
     (case List.find (contains line) set_strings_any of
        None \<Rightarrow> (Inr (fst cm), snd cm)
      | Some set_string \<Rightarrow>
          (case label_nd line [] set_string cm of
             (Inl e, m) \<Rightarrow> (Inl e, m)
           | (Inr c, m) \<Rightarrow>
               (case label_ed line [] set_string (c, m) of
                  (Inl e, m') \<Rightarrow> (Inl e, m')
                | (Inr c', m') \<Rightarrow> label_rd line [] set_string (c', m'))))"

definition label_line_standard :: "string \<Rightarrow> nat \<times> settings \<Rightarrow> (exn + nat) \<times> settings" where
  "label_line_standard line cm =
     (case List.find (contains line) set_strings_node of
        Some set_string \<Rightarrow> label_nd line ''node'' set_string cm
      | None \<Rightarrow>
     (case List.find (contains line) set_strings_joint of
        Some set_string \<Rightarrow> label_ed line ''joint'' set_string cm
      | None \<Rightarrow>
     (case List.find (contains line) set_strings_beam of
        Some set_string \<Rightarrow> label_ed line ''beam'' set_string cm
      | None \<Rightarrow>
     (case List.find (contains line) set_strings_refs of
        Some set_string \<Rightarrow> label_rd line ''ref'' set_string cm
      | None \<Rightarrow> (Inr (fst cm), snd cm)))))"

definition label_line :: "string \<Rightarrow> nat \<times> settings \<Rightarrow> (exn + nat) \<times> settings" where
  "label_line line cm =
     (if free_labels (snd cm) then label_line_free line cm else label_line_standard line cm)"

fun label_lines :: "string list \<Rightarrow> nat \<times> settings \<Rightarrow> (exn + nat) \<times> settings" where
  "label_lines [] cm = (Inr (fst cm), snd cm)"
| "label_lines (line # rest) cm =
     (case label_line line cm of
        (Inl e, m) \<Rightarrow> (Inl e, m)
      | (Inr c, m) \<Rightarrow> label_lines rest (c, m))"

text \<open>
  \<^verbatim>\<open>assign_labels(context)\<close>. The log is the list of its lines, \<open>None\<close> when opening it
  raises IOError. The result is the returned status or the exception that leaves the
  function, and the settings as the call left them. A log that opens is read to its
  end: an IOError in the middle of the iteration, which the same handler would turn
  into FILE_NOT_FOUND after the lines read so far have had their effect, is not part of
  this model.
\<close>

definition assign_labels :: "string list option \<Rightarrow> settings \<Rightarrow> (exn + status) \<times> settings" where
  "assign_labels log_file mbs =
     (case log_file of
        None \<Rightarrow> (Inr FILE_NOT_FOUND, mbs)
      | Some lf \<Rightarrow>
          (case label_lines lf (0, mbs) of
             (Inl e, m) \<Rightarrow> (Inl e, m)
           | (Inr labels_changed, m) \<Rightarrow>
               (Inr (if labels_changed \<noteq> 0 then LABELS_UPDATED else NOTHING_DONE), m)))"

text \<open>
  What a call may change in the registry is stated with three notions: an entity with
  its string label blanked, two settings that differ at most in string labels, and the
  lines the scan reacts to.
\<close>

definition erase_label :: "'a entity_scheme \<Rightarrow> 'a entity_scheme" where
  "erase_label x = x\<lparr>string_label := []\<rparr>"

definition same_entities :: "settings \<Rightarrow> settings \<Rightarrow> bool" where
  "same_entities m m' =
     (map erase_label (mbs_nodes m) = map erase_label (mbs_nodes m')
      \<and> map erase_label (elems m) = map erase_label (elems m')
      \<and> map erase_label (references m) = map erase_label (references m')
      \<and> m\<lparr>mbs_nodes := [], elems := [], references := []\<rparr>
          = m'\<lparr>mbs_nodes := [], elems := [], references := []\<rparr>)"

definition recognised :: "bool \<Rightarrow> string \<Rightarrow> bool" where
  "recognised free line =
     (if free then List.find (contains line) set_strings_any \<noteq> None
      else List.find (contains line)
             (set_strings_node @ set_strings_joint @ set_strings_beam @ set_strings_refs) \<noteq> None)"

text \<open>What one line of the log may do to the counter and the settings.\<close>

definition step_ok :: "string \<Rightarrow> nat \<times> settings \<Rightarrow> (exn + nat) \<times> settings \<Rightarrow> bool" where
  "step_ok line cm r =
     (same_entities (snd cm) (snd r)
      \<and> (case fst r of
            Inl e \<Rightarrow> e = ValueError \<and> label_int line = Inl ValueError
                      \<and> recognised (free_labels (snd cm)) line
          | Inr c \<Rightarrow> fst cm \<le> c \<and> (c = fst cm \<longrightarrow> snd r = snd cm) \<and> (fst cm < c \<longrightarrow> snd r \<noteq> snd cm)
                      \<and> (recognised (free_labels (snd cm)) line \<longrightarrow> label_int line \<noteq> Inl ValueError))
      \<and> (\<forall>i < length (mbs_nodes (snd cm)).
            string_label (mbs_nodes (snd r) ! i) \<noteq> string_label (mbs_nodes (snd cm) ! i) \<longrightarrow>
            label_int line = Inr (int_label (mbs_nodes (snd cm) ! i)))
      \<and> (\<forall>i < length (elems (snd cm)).
            string_label (elems (snd r) ! i) \<noteq> string_label (elems (snd cm) ! i) \<longrightarrow>
            label_int line = Inr (int_label (elems (snd cm) ! i)))
      \<and> (\<forall>i < length (references (snd cm)).
            string_label (references (snd r) ! i) \<noteq> string_label (references (snd cm) ! i) \<longrightarrow>
            label_int line = Inr (int_label (references (snd cm) ! i))))"

section \<open>baselib: parse_log_file\<close>

subsection \<open>Rows of a blank-delimited file\<close>

text \<open>
  \<^verbatim>\<open>csv.reader(f, delimiter=' ', skipinitialspace=True)\<close> on one line that holds no quote
  character: blanks before a field are dropped, a blank ends a field, the line end ends
  the row. A blank before the line end so leaves an empty last field, and an empty line
  is the empty row.
\<close>

definition is_eol :: "char \<Rightarrow> bool" where
  "is_eol c = (c = CHR 0x0A \<or> c = CHR 0x0D)"

fun start_field :: "string \<Rightarrow> string list"
  and in_field :: "string \<Rightarrow> string \<Rightarrow> string list" where
  "start_field [] = [[]]"
| "start_field (c # cs) =
     (if is_eol c then [[]] else if c = CHR '' '' then start_field cs else in_field [c] cs)"
| "in_field acc [] = [acc]"
| "in_field acc (c # cs) =
     (if is_eol c then [acc] else if c = CHR '' '' then acc # start_field cs
      else in_field (acc @ [c]) cs)"

definition csv_row :: "string \<Rightarrow> string list" where
  "csv_row line = (case line of [] \<Rightarrow> [] | c # cs \<Rightarrow> if is_eol c then [] else start_field line)"

subsection \<open>The sub-parsers and the files\<close>




subsection \<open>The declaration scan\<close>










subsection \<open>After the scan\<close>

text \<open>
  \<^verbatim>\<open>for name in coll.keys(): coll[name].is_imported = False\<close>: a key reaches the first
  item of that name.
\<close>

definition first_named :: "('a entity_scheme) list \<Rightarrow> string \<Rightarrow> 'a entity_scheme option" where
  "first_named coll k = List.find (\<lambda>x. name x = k) coll"








subsection \<open>no_output\<close>








subsection \<open>The stages after the scan and the whole function\<close>










section \<open>baselib: set_motion_paths_mov\<close>

text \<open>
  The import of the text output when no \<^verbatim>\<open>.mod\<close> file stands next to the \<^verbatim>\<open>.mov\<close> file
  (the \<^verbatim>\<open>else\<close> branch of \<^verbatim>\<open>if have_mod_file\<close>; the other branch reads the \<^verbatim>\<open>.mov\<close> rows
  with the same statements). Floats are idealised as reals.

  \<^verbatim>\<open>round(x)\<close> rounds a half to the even neighbour; \<^verbatim>\<open>np.arange(start, stop, step)\<close> has
  \<open>\<lceil>(stop - start) / step\<rceil>\<close> elements \<open>start + i * step\<close>;
  \<^verbatim>\<open>np.array(row).astype(np.float)\<close> converts every field of a row and raises ValueError on
  a field that is no number, the conversion \<^verbatim>\<open>float\<close> being the parameter \<open>fl\<close>.
\<close>

definition py_round :: "real \<Rightarrow> int" where
  "py_round x =
     (if x - of_int \<lfloor>x\<rfloor> = 1 / 2 then (if even \<lfloor>x\<rfloor> then \<lfloor>x\<rfloor> else \<lfloor>x\<rfloor> + 1)
      else \<lfloor>x + 1 / 2\<rfloor>)"

definition arange :: "real \<Rightarrow> real \<Rightarrow> real \<Rightarrow> real list" where
  "arange start stop step =
     map (\<lambda>i. start + of_nat i * step) [0..<nat \<lceil>(stop - start) / step\<rceil>]"

definition to_floats :: "(string \<Rightarrow> real option) \<Rightarrow> string list \<Rightarrow> exn + real list" where
  "to_floats fl rw =
     (if list_all (\<lambda>s. fl s \<noteq> None) rw then Inr (map (\<lambda>s. the (fl s)) rw) else Inl ValueError)"

text \<open>
  The frame counters of the scene, and the state of the import: the rows the reader has
  not yet delivered; the list objects the names \<^verbatim>\<open>first_mov\<close> and \<^verbatim>\<open>second_mov\<close> are bound
  to, kept in a store and named by their position in it, so that \<^verbatim>\<open>first_mov = second_mov\<close>
  binds both names to one list; the dict \<^verbatim>\<open>anim_objs\<close>; and the calls
  \<^verbatim>\<open>set_obj_locrot_mov(obj, row)\<close> made so far, each as the name of the object and the row.
  \<^verbatim>\<open>set_obj_locrot_mov\<close> belongs to nodelib, outside these sources; \<^verbatim>\<open>bpy.data.objects\<close> is
  the list \<open>objs\<close> of the names of the objects of the scene.
\<close>

record scene =
  frame_start :: int
  frame_end :: int
  frame_current :: int

record mov_run =
  reader :: "string list list"
  store :: "real list list list"
  first_mov :: nat
  second_mov :: nat
  anim_objs :: "real \<Rightarrow> string option"
  scn :: scene
  calls :: "(string \<times> real list) list"

definition next_row :: "mov_run \<Rightarrow> exn + string list \<times> mov_run" where
  "next_row st =
     (case reader st of [] \<Rightarrow> Inl StopIteration | rw # rest \<Rightarrow> Inr (rw, st\<lparr>reader := rest\<rparr>))"

text \<open>\<^verbatim>\<open>for ii in range(n): next(reader_mov)\<close>.\<close>

fun skip_rows :: "nat \<Rightarrow> mov_run \<Rightarrow> exn + mov_run" where
  "skip_rows 0 st = Inr st"
| "skip_rows (Suc n) st =
     (case next_row st of Inl e \<Rightarrow> Inl e | Inr (rw, st') \<Rightarrow> skip_rows n st')"

text \<open>
  \<^verbatim>\<open>for ndx in range(mbs.num_nodes): xs[ndx] = np.array(next(reader_mov)).astype(np.float)\<close>
  where \<open>a\<close> is the list the name \<^verbatim>\<open>xs\<close> is bound to. Both lists have \<^verbatim>\<open>num_nodes\<close> items
  once the first rows are read, so the index is in range.
\<close>

fun read_into :: "(string \<Rightarrow> real option) \<Rightarrow> nat \<Rightarrow> nat list \<Rightarrow> mov_run \<Rightarrow> exn + mov_run" where
  "read_into fl a [] st = Inr st"
| "read_into fl a (ndx # rest) st =
     (case next_row st of
        Inl e \<Rightarrow> Inl e
      | Inr (rw, st') \<Rightarrow>
          (case to_floats fl rw of
             Inl e \<Rightarrow> Inl e
           | Inr r \<Rightarrow>
               read_into fl a rest (st'\<lparr>store := (store st')[a := (store st' ! a)[ndx := r]]\<rparr>)))"

text \<open>
  \<^verbatim>\<open>bpy.data.objects[anim_objs[key]]\<close>: KeyError when the key is not in the dict or the
  scene has no object of that name.
\<close>

definition lookup_obj :: "string list \<Rightarrow> (real \<Rightarrow> string option) \<Rightarrow> real \<Rightarrow> exn + string" where
  "lookup_obj objs ao k =
     (case ao k of
        None \<Rightarrow> Inl KeyError
      | Some nm \<Rightarrow> if nm \<in> set objs then Inr nm else Inl KeyError)"

text \<open>
  The loop over the nodes of an interpolated frame: the blend of the two rows, the
  lookup of the object under the rounded label, the call. KeyError is caught and the
  node passed over; the IndexError of \<^verbatim>\<open>answer[0]\<close> on an empty row and the ValueError of
  rows of different lengths are not.
\<close>

fun blend_rows :: "string list \<Rightarrow> real \<Rightarrow> nat list \<Rightarrow> mov_run \<Rightarrow> exn + mov_run" where
  "blend_rows objs fr [] st = Inr st"
| "blend_rows objs fr (ndx # rest) st =
     (case interp_mov fr (store st ! first_mov st ! ndx) (store st ! second_mov st ! ndx) of
        Inl e \<Rightarrow> Inl e
      | Inr answer \<Rightarrow>
          (case item answer 0 of
             Inl e \<Rightarrow> Inl e
           | Inr a0 \<Rightarrow>
               (case lookup_obj objs (anim_objs st) (of_int (py_round a0)) of
                  Inl e \<Rightarrow> blend_rows objs fr rest st
                | Inr nm \<Rightarrow> blend_rows objs fr rest (st\<lparr>calls := calls st @ [(nm, answer)]\<rparr>))))"

text \<open>The loop over the nodes of a frame that is not interpolated; here KeyError is not caught.\<close>

fun show_rows :: "string list \<Rightarrow> nat list \<Rightarrow> mov_run \<Rightarrow> exn + mov_run" where
  "show_rows objs [] st = Inr st"
| "show_rows objs (ndx # rest) st =
     (let rw_mov = store st ! first_mov st ! ndx
      in case item rw_mov 0 of
           Inl e \<Rightarrow> Inl e
         | Inr r0 \<Rightarrow>
             (case lookup_obj objs (anim_objs st) (of_int (py_round r0)) of
                Inl e \<Rightarrow> Inl e
              | Inr nm \<Rightarrow> show_rows objs rest (st\<lparr>calls := calls st @ [(nm, rw_mov)]\<rparr>)))"

text \<open>
  The body of \<^verbatim>\<open>for idx, frame in enumerate(np.arange(loop_start + freq, loop_end, freq))\<close>.
  \<^verbatim>\<open>Nskip_mov\<close> is 0 before the loop and is assigned only when \<^verbatim>\<open>freq > 1\<close>. \<open>n\<close> is
  \<^verbatim>\<open>mbs.num_nodes\<close>.
\<close>

definition frame_step :: "(string \<Rightarrow> real option) \<Rightarrow> string list \<Rightarrow> real \<Rightarrow> int \<Rightarrow> real \<Rightarrow> mov_run \<Rightarrow> exn + mov_run" where
  "frame_step fl objs freq n frame st =
     (let st1 = st\<lparr>scn := (scn st)\<lparr>frame_current := frame_current (scn st) + 1\<rparr>\<rparr>;
          Nskip_mov = (if freq > 1 then (trunc frame - trunc (frame - freq) - 2) * n else 0)
      in case (if Nskip_mov \<ge> 0
               then (case skip_rows (nat Nskip_mov) st1 of
                       Inl e \<Rightarrow> Inl e
                     | Inr s \<Rightarrow> read_into fl (first_mov s) [0..<nat n] s)
               else Inr st1) of
           Inl e \<Rightarrow> Inl e
         | Inr st2 \<Rightarrow>
             if freq > 1
             then (case read_into fl (second_mov st2) [0..<nat n] st2 of
                     Inl e \<Rightarrow> Inl e
                   | Inr st3 \<Rightarrow>
                       (case blend_rows objs (of_int \<lceil>frame\<rceil> - frame) [0..<nat n] st3 of
                          Inl e \<Rightarrow> Inl e
                        | Inr st4 \<Rightarrow> Inr (st4\<lparr>first_mov := second_mov st4\<rparr>)))
             else show_rows objs [0..<nat n] st2)"

fun frames :: "(string \<Rightarrow> real option) \<Rightarrow> string list \<Rightarrow> real \<Rightarrow> int \<Rightarrow> real list \<Rightarrow> mov_run \<Rightarrow> exn + mov_run" where
  "frames fl objs freq n [] st = Inr st"
| "frames fl objs freq n (frame # rest) st =
     (case frame_step fl objs freq n frame st of
        Inl e \<Rightarrow> Inl e
      | Inr st' \<Rightarrow> frames fl objs freq n rest st')"

text \<open>
  The first rows: each is appended to both lists, and the node it names, when it has
  an object and is in the output, is entered in \<^verbatim>\<open>anim_objs\<close> and placed. The KeyError of
  a label that is no node of the registry, or of an object that is not in the scene, is
  caught.
\<close>

fun init_rows :: "(string \<Rightarrow> real option) \<Rightarrow> string list \<Rightarrow> node list \<Rightarrow> nat \<Rightarrow> mov_run \<Rightarrow> exn + mov_run" where
  "init_rows fl objs nd 0 st = Inr st"
| "init_rows fl objs nd (Suc k) st =
     (case next_row st of
        Inl e \<Rightarrow> Inl e
      | Inr (rw, st1) \<Rightarrow>
          (case to_floats fl rw of
             Inl e \<Rightarrow> Inl e
           | Inr rw_mov \<Rightarrow>
               (let s1 = (store st1)[first_mov st1 := store st1 ! first_mov st1 @ [rw_mov]];
                    s2 = s1[second_mov st1 := s1 ! second_mov st1 @ [rw_mov]];
                    st2 = st1\<lparr>store := s2\<rparr>
                in case item rw_mov 0 of
                     Inl e \<Rightarrow> Inl e
                   | Inr r0 \<Rightarrow>
                       (case first_named nd (''node_'' @ str_int (trunc r0)) of
                          None \<Rightarrow> init_rows fl objs nd k st2
                        | Some x \<Rightarrow>
                            if blender_object x \<noteq> ''none'' \<and> output_flag x
                            then (let st3 = st2\<lparr>anim_objs := (anim_objs st2)(r0 \<mapsto> blender_object x)\<rparr>
                                  in if blender_object x \<in> set objs
                                     then init_rows fl objs nd k
                                            (st3\<lparr>calls := calls st3 @ [(blender_object x, rw_mov)]\<rparr>)
                                     else init_rows fl objs nd k st3)
                            else init_rows fl objs nd k st2))))"

text \<open>
  \<^verbatim>\<open>set_motion_paths_mov(context)\<close>: \<open>mov\<close> is the \<^verbatim>\<open>.mov\<close> file as the list of its lines,
  \<open>None\<close> when opening it raises IOError, which is caught; \<open>freq\<close> is
  \<^verbatim>\<open>mbs.load_frequency\<close> and \<open>sc\<close> the scene before the call. The result is the returned
  status with the state of the import, or the exception that leaves the function. The
  table \<^verbatim>\<open>mbs.simtime\<close> written after the loop is not part of the model.
\<close>

definition set_motion_paths_mov :: "(string \<Rightarrow> real option) \<Rightarrow> string list \<Rightarrow> string list option \<Rightarrow> real \<Rightarrow> settings \<Rightarrow> scene \<Rightarrow> exn + status \<times> mov_run" where
  "set_motion_paths_mov fl objs mov freq mbs sc =
     (let idle = \<lparr>reader = [], store = [[], []], first_mov = 0, second_mov = 1,
                  anim_objs = (\<lambda>k. None), scn = sc, calls = []\<rparr>
      in if \<not> is_ready mbs then Inr (CANCELLED, idle)
         else if time_step mbs * freq = 0 then Inl ZeroDivisionError
         else
           (let fs = trunc (start_time mbs / (time_step mbs * freq));
                fe = trunc (end_time mbs / (time_step mbs * freq)) + 1;
                loop_start = trunc (of_int fs * freq);
                loop_end = trunc (of_int fe * freq);
                sc1 = sc\<lparr>frame_start := fs, frame_end := fe\<rparr>
            in case mov of
                 None \<Rightarrow> Inr (FINISHED, idle\<lparr>scn := sc1\<rparr>)
               | Some ls \<Rightarrow>
                   (case skip_rows (nat (trunc (start_time mbs * of_int (num_nodes mbs) / time_step mbs)))
                           (idle\<lparr>reader := map csv_row ls, scn := sc1\<lparr>frame_current := fs\<rparr>\<rparr>) of
                      Inl e \<Rightarrow> Inl e
                    | Inr st1 \<Rightarrow>
                        (case init_rows fl objs (mbs_nodes mbs) (nat (num_nodes mbs)) st1 of
                           Inl e \<Rightarrow> Inl e
                         | Inr st2 \<Rightarrow>
                             (case frames fl objs freq (num_nodes mbs)
                                     (arange (of_int loop_start + freq) (of_int loop_end) freq) st2 of
                                Inl e \<Rightarrow> Inl e
                              | Inr st3 \<Rightarrow> Inr (FINISHED, st3))))))"

subsection \<open>The node sub-parser, from the specification\<close>






text \<open>
  The interpolated row as claim C3 words it: at timestep \<open>t\<close>, the samples at \<open>\<lfloor>t\<rfloor>\<close> and
  \<open>\<lceil>t\<rceil>\<close> blended with the weight \<open>\<lceil>t\<rceil> - t\<close> on the earlier one. \<open>calls_of\<close> keeps of a
  run of \<open>set_motion_paths_mov\<close> the status and the rows handed to the objects.
\<close>

definition bracket_blend :: "real list list \<Rightarrow> real \<Rightarrow> real list" where
  "bracket_blend samples t =
     (let fr = of_int \<lceil>t\<rceil> - t
      in map2 (\<lambda>a b. fr * a + (1 - fr) * b) (samples ! nat \<lfloor>t\<rfloor>) (samples ! nat \<lceil>t\<rceil>))"

definition calls_of :: "exn + status \<times> mov_run \<Rightarrow> exn + status \<times> (string \<times> real list) list" where
  "calls_of r = (case r of Inl e \<Rightarrow> Inl e | Inr (s, st) \<Rightarrow> Inr (s, calls st))"

section \<open>Sample inputs\<close>

text \<open>
  Concrete records and rows on which the theorems below are instantiated. \<open>fl_int\<close>
  stands for \<^verbatim>\<open>float\<close> on the integer literals the samples use.
\<close>

definition fl_int :: "string \<Rightarrow> real option" where
  "fl_int s = map_option real_of_int (py_int s)"

definition beam3_row :: "string list" where
  "beam3_row = [''beam3:'', ''7'', ''1'', ''0'', ''0'', ''0'', ''2'', ''1'', ''0'', ''0'', ''3'', ''2'', ''0'', ''0'']"

definition elem0 :: elem where
  "elem0 = \<lparr>name = [], int_label = 0, string_label = ''none'', blender_object = ''none'',
     is_imported = False, mbclass = [], etype = [], nodes = [], offsets = [],
     import_function = [], info_draw = [], update = []\<rparr>"

definition beam3_7 :: elem where
  "beam3_7 = elem0\<lparr>name := ''beam3_7'', int_label := 7, etype := ''beam3'', nodes := [1, 2, 3],
     offsets := [(0, 0, 0), (5, 5, 5), (9, 9, 9)]\<rparr>"

definition node0 :: node where
  "node0 = \<lparr>name = [], int_label = 0, string_label = ''none'', blender_object = ''none'',
     is_imported = False, parametrization = [], output_flag = False\<rparr>"

definition mk_node :: "int \<Rightarrow> string \<Rightarrow> node" where
  "mk_node l obj = node0\<lparr>name := ''node_'' @ str_int l, int_label := l, blender_object := obj,
     is_imported := True, parametrization := ''EULER123''\<rparr>"

definition mbs0 :: settings where
  "mbs0 = \<lparr>mbs_nodes = [], elems = [], references = [], free_labels = False, use_netcdf = False, num_rows = 0,
     num_nodes = 0, num_timesteps = 0, min_node_import = 0, max_node_import = 0,
     min_elem_import = 0, max_elem_import = 0, is_ready = False, time_step = 0,
     start_time = 0, end_time = 0\<rparr>"

definition nl :: string where
  "nl = [CHR 0x0A]"

definition two_nodes :: settings where
  "two_nodes = mbs0\<lparr>mbs_nodes := [mk_node 5 ''Cube'', mk_node 17 ''Ball'']\<rparr>"

definition node_line :: string where
  "node_line = ''  integer Node_42 = 17'' @ nl"

definition bare_line :: string where
  "bare_line = ''integer Node_42 = 17'' @ nl"

definition bad_line :: string where
  "bad_line = ''  integer Node_b = x'' @ nl"

definition other_line :: string where
  "other_line = ''structural node: 5 0 0 0 euler123 0 0 0'' @ nl"










definition one_node :: settings where
  "one_node = mbs0\<lparr>mbs_nodes := [mk_node 1 ''Obj1'']\<rparr>"






text \<open>
  A text output of one node that moves along the first axis, one unit per timestep:
  the row of timestep \<open>k\<close> holds the label 1 and the position \<open>(k, 0, 0)\<close>.
\<close>

definition mov_ramp :: "string list" where
  "mov_ramp =
     [''1 0 0 0 0 0 0'' @ nl, ''1 1 0 0 0 0 0'' @ nl, ''1 2 0 0 0 0 0'' @ nl,
      ''1 3 0 0 0 0 0'' @ nl, ''1 4 0 0 0 0 0'' @ nl, ''1 5 0 0 0 0 0'' @ nl,
      ''1 6 0 0 0 0 0'' @ nl, ''1 7 0 0 0 0 0'' @ nl, ''1 8 0 0 0 0 0'' @ nl,
      ''1 9 0 0 0 0 0'' @ nl]"

definition ramp_mbs :: settings where
  "ramp_mbs = mbs0\<lparr>mbs_nodes := [(mk_node 1 ''Obj1'')\<lparr>output_flag := True\<rparr>], num_nodes := 1,
     is_ready := True, time_step := 1, start_time := 0, end_time := 8\<rparr>"

definition scene0 :: scene where
  "scene0 = \<lparr>frame_start = 0, frame_end = 0, frame_current = 0\<rparr>"

definition ramp_rows :: "real list list" where
  "ramp_rows = map (\<lambda>k. [1, real k, 0, 0, 0, 0, 0]) [0..<10]"

definition ramp_positions :: "vec list" where
  "ramp_positions = map (\<lambda>k. (real k, 0, 0)) [0..<10]"

section \<open>Properties of the beam3 parser\<close>


lemma run_Cons_Inr: "f s = Inr s' \<Longrightarrow> run (f # fs) s = run fs s'"
  by simp

lemma item_in: "i < length xs \<Longrightarrow> item xs i = Inr (xs ! i)"
  by (simp add: item_def)

lemma int_col_ok: "i < length rw \<Longrightarrow> int_col rw i = (case py_int (rw ! i) of None \<Rightarrow> Inl ValueError | Some n \<Rightarrow> Inr n)"
  by (simp add: int_col_def item_def int_of_def)

lemma set_node_ok:
  "i < length (nodes el) \<Longrightarrow> c < length rw \<Longrightarrow>
   set_node rw i c el = (case py_int (rw ! c) of None \<Rightarrow> Inl ValueError
      | Some n \<Rightarrow> Inr (el\<lparr>nodes := (nodes el)[i := n]\<rparr>))"
  by (simp add: set_node_def int_col_ok split: option.splits)

lemma set_offset_ok:
  "i < length (offsets el) \<Longrightarrow>
   set_offset fl rw i a b c el = (case vector3 fl rw a b c of Inl e \<Rightarrow> Inl e
      | Inr v \<Rightarrow> Inr (el\<lparr>offsets := (offsets el)[i := v]\<rparr>))"
  by (simp add: set_offset_def split: sum.splits)

lemma beam3_update_run:
  assumes "14 \<le> length rw"
    and "py_int (rw ! 2) = Some n0" and "py_int (rw ! 6) = Some n1" and "py_int (rw ! 10) = Some n2"
    and "vector3 fl rw 3 4 5 = Inr v0" and "vector3 fl rw 7 8 9 = Inr v1"
    and "vector3 fl rw 11 12 13 = Inr v2"
    and "3 \<le> length (nodes el)" and "2 \<le> length (offsets el)"
  shows "run (beam3_update fl rw) el =
     (None, el\<lparr>is_imported := True, mbclass := ''elem.beam'',
                nodes := (nodes el)[0 := n0, 1 := n1, 2 := n2],
                offsets := (offsets el)[0 := v0, 1 := v2]\<rparr>)"
proof -
  have ne: "nodes el \<noteq> []" "offsets el \<noteq> []" using assms by auto
  show ?thesis
    using assms ne by (simp add: beam3_update_def set_node_ok set_offset_ok)
qed

lemma beam3_create_run:
  assumes "14 \<le> length rw" and "py_int (rw ! 1) = Some lab"
    and "py_int (rw ! 2) = Some n0" and "py_int (rw ! 6) = Some n1" and "py_int (rw ! 10) = Some n2"
    and "vector3 fl rw 3 4 5 = Inr v0" and "vector3 fl rw 7 8 9 = Inr v1"
    and "vector3 fl rw 11 12 13 = Inr v2"
    and "nodes el = []" and "offsets el = []"
  shows "run (beam3_create fl rw) el =
     (None, el\<lparr>name := ''beam3_'' @ str_int lab, int_label := lab, is_imported := True,
                mbclass := ''elem.beam'', etype := ''beam3'',
                nodes := [n0, n1, n2], offsets := [v0, v1, v2],
                import_function := ''blendyn.import_beam3'', info_draw := ''beam3_info_draw'',
                update := ''update_beam3''\<rparr>)"
  using assms by (simp add: beam3_create_def set_node_ok set_offset_ok set_int_label_def int_col_ok nodes_add_def offsets_add_def)


lemma index_of_Some: "index_of P xs = Some i \<Longrightarrow> i < length xs \<and> P (xs ! i)"
proof (induction xs arbitrary: i)
  case Nil
  then show ?case by simp
next
  case (Cons x xs)
  then show ?case by (cases "P x") auto
qed

lemma key_index_Some: "key_index ed k = Some i \<Longrightarrow> i < length ed \<and> name (ed ! i) = k"
  unfolding key_index_def by (rule index_of_Some)

text \<open>
  Claim C10. When the record names a beam3 element that is already in the registry, the
  update branch stores the vector of columns 11-13 in \<open>offsets[1]\<close>, over the vector of
  columns 7-9 it stored there just before, and leaves \<open>offsets[2]\<close> as it was; when the
  element is not in the registry, the creation branch stores the vector of columns 11-13
  in \<open>offsets[2]\<close>. Both branches are stated for a record whose columns parse, where the
  call returns (True on update, False on creation).
\<close>

theorem parse_beam3_third_offset:
  assumes "14 \<le> length rw"
    and "py_int (rw ! 2) = Some n0" and "py_int (rw ! 6) = Some n1" and "py_int (rw ! 10) = Some n2"
    and "vector3 fl rw 3 4 5 = Inr v0" and "vector3 fl rw 7 8 9 = Inr v1"
    and "vector3 fl rw 11 12 13 = Inr v2"
  shows "(key_index ed (''beam3_'' @ rw ! 1) = Some i \<and> 3 \<le> length (nodes (ed ! i))
            \<and> 2 \<le> length (offsets (ed ! i)) \<longrightarrow>
          fst (parse_beam3 fl fresh rw ed) = Inr True
          \<and> length (snd (parse_beam3 fl fresh rw ed)) = length ed
          \<and> offsets (snd (parse_beam3 fl fresh rw ed) ! i) = (offsets (ed ! i))[0 := v0, 1 := v2]
          \<and> offsets (snd (parse_beam3 fl fresh rw ed) ! i) ! 1 = v2
          \<and> offsets (snd (parse_beam3 fl fresh rw ed) ! i) ! 2 = offsets (ed ! i) ! 2)
       \<and> (key_index ed (''beam3_'' @ rw ! 1) = None \<and> py_int (rw ! 1) = Some lab \<longrightarrow>
          fst (parse_beam3 fl fresh rw ed) = Inr False
          \<and> length (snd (parse_beam3 fl fresh rw ed)) = Suc (length ed)
          \<and> offsets (snd (parse_beam3 fl fresh rw ed) ! length ed) = [v0, v1, v2]
          \<and> offsets (snd (parse_beam3 fl fresh rw ed) ! length ed) ! 2 = v2)"
proof (intro conjI impI)
  assume h: "key_index ed (''beam3_'' @ rw ! 1) = Some i \<and> 3 \<le> length (nodes (ed ! i))
            \<and> 2 \<le> length (offsets (ed ! i))"
  then have i: "i < length ed" using key_index_Some by blast
  have r: "parse_beam3 fl fresh rw ed = (Inr True, ed[i := (ed ! i)\<lparr>is_imported := True, mbclass := ''elem.beam'',
                nodes := (nodes (ed ! i))[0 := n0, 1 := n1, 2 := n2],
                offsets := (offsets (ed ! i))[0 := v0, 1 := v2]\<rparr>])"
    using assms(1) h beam3_update_run [OF assms, of "ed ! i"]
    by (simp add: parse_beam3_def item_def)
  show "fst (parse_beam3 fl fresh rw ed) = Inr True" by (simp add: r)
  show "length (snd (parse_beam3 fl fresh rw ed)) = length ed" by (simp add: r)
  show "offsets (snd (parse_beam3 fl fresh rw ed) ! i) = (offsets (ed ! i))[0 := v0, 1 := v2]"
    using i by (simp add: r)
  show "offsets (snd (parse_beam3 fl fresh rw ed) ! i) ! 1 = v2"
    using i h by (simp add: r)
  show "offsets (snd (parse_beam3 fl fresh rw ed) ! i) ! 2 = offsets (ed ! i) ! 2"
    using i by (simp add: r)
next
  assume h: "key_index ed (''beam3_'' @ rw ! 1) = None \<and> py_int (rw ! 1) = Some lab"
  have r: "parse_beam3 fl fresh rw ed = (Inr False, ed @ [fresh\<lparr>nodes := [], offsets := []\<rparr>
               \<lparr>name := ''beam3_'' @ str_int lab, int_label := lab, is_imported := True,
                mbclass := ''elem.beam'', etype := ''beam3'',
                nodes := [n0, n1, n2], offsets := [v0, v1, v2],
                import_function := ''blendyn.import_beam3'', info_draw := ''beam3_info_draw'',
                update := ''update_beam3''\<rparr>])"
    using assms(1) h beam3_create_run [OF assms(1) _ assms(2-7), of lab "fresh\<lparr>nodes := [], offsets := []\<rparr>"]
    by (simp add: parse_beam3_def item_def)
  show "fst (parse_beam3 fl fresh rw ed) = Inr False" by (simp add: r)
  show "length (snd (parse_beam3 fl fresh rw ed)) = Suc (length ed)" by (simp add: r)
  show "offsets (snd (parse_beam3 fl fresh rw ed) ! length ed) = [v0, v1, v2]" by (simp add: r)
  show "offsets (snd (parse_beam3 fl fresh rw ed) ! length ed) ! 2 = v2" by (simp add: r)
qed


text \<open>The theorem at a beam3 record, on a registry that holds the element and on an empty one.\<close>

theorem parse_beam3_third_offset_witness:
  "14 \<le> length beam3_row
   \<and> py_int (beam3_row ! 2) = Some 1 \<and> py_int (beam3_row ! 6) = Some 2
   \<and> py_int (beam3_row ! 10) = Some 3
   \<and> vector3 fl_int beam3_row 3 4 5 = Inr (0, 0, 0)
   \<and> vector3 fl_int beam3_row 7 8 9 = Inr (1, 0, 0)
   \<and> vector3 fl_int beam3_row 11 12 13 = Inr (2, 0, 0)
   \<and> key_index [beam3_7] (''beam3_'' @ beam3_row ! 1) = Some 0
   \<and> 3 \<le> length (nodes ([beam3_7] ! 0)) \<and> 2 \<le> length (offsets ([beam3_7] ! 0))
   \<and> fst (parse_beam3 fl_int elem0 beam3_row [beam3_7]) = Inr True
   \<and> offsets (snd (parse_beam3 fl_int elem0 beam3_row [beam3_7]) ! 0) = [(0, 0, 0), (2, 0, 0), (9, 9, 9)]
   \<and> key_index [] (''beam3_'' @ beam3_row ! 1) = None \<and> py_int (beam3_row ! 1) = Some 7
   \<and> fst (parse_beam3 fl_int elem0 beam3_row []) = Inr False
   \<and> offsets (snd (parse_beam3 fl_int elem0 beam3_row []) ! 0) = [(0, 0, 0), (1, 0, 0), (2, 0, 0)]"
proof -
  have h1: "14 \<le> length beam3_row" by (simp add: beam3_row_def)
  have h2: "py_int (beam3_row ! 2) = Some 1" by code_simp
  have h3: "py_int (beam3_row ! 6) = Some 2" by code_simp
  have h4: "py_int (beam3_row ! 10) = Some 3" by code_simp
  have h5: "vector3 fl_int beam3_row 3 4 5 = Inr (0, 0, 0)" by code_simp
  have h6: "vector3 fl_int beam3_row 7 8 9 = Inr (1, 0, 0)" by code_simp
  have h7: "vector3 fl_int beam3_row 11 12 13 = Inr (2, 0, 0)" by code_simp
  have k1: "key_index [beam3_7] (''beam3_'' @ beam3_row ! 1) = Some 0" by code_simp
  have k2: "3 \<le> length (nodes ([beam3_7] ! 0))" "2 \<le> length (offsets ([beam3_7] ! 0))"
    by (simp_all add: beam3_7_def elem0_def)
  have k3: "key_index [] (''beam3_'' @ beam3_row ! 1) = None" by (simp add: key_index_def)
  have k4: "py_int (beam3_row ! 1) = Some 7" by code_simp
  have o: "(offsets ([beam3_7] ! 0))[0 := (0, 0, 0), 1 := (2, 0, 0)] = [(0, 0, 0), (2, 0, 0), (9, 9, 9)]"
    by (simp add: beam3_7_def elem0_def)
  note u = parse_beam3_third_offset [OF h1 h2 h3 h4 h5 h6 h7, of "[beam3_7]" 0 elem0 7]
  note c = parse_beam3_third_offset [OF h1 h2 h3 h4 h5 h6 h7, of "[]" 0 elem0 7]
  from u k1 k2 have a: "fst (parse_beam3 fl_int elem0 beam3_row [beam3_7]) = Inr True"
    by blast
  from u k1 k2 have b0: "offsets (snd (parse_beam3 fl_int elem0 beam3_row [beam3_7]) ! 0)
      = (offsets ([beam3_7] ! 0))[0 := (0, 0, 0), 1 := (2, 0, 0)]"
    by blast
  have b: "offsets (snd (parse_beam3 fl_int elem0 beam3_row [beam3_7]) ! 0) = [(0, 0, 0), (2, 0, 0), (9, 9, 9)]"
    using b0 unfolding o .
  from c k3 k4 have d: "fst (parse_beam3 fl_int elem0 beam3_row []) = Inr False"
    by blast
  from c k3 k4 have e0: "offsets (snd (parse_beam3 fl_int elem0 beam3_row []) ! length ([] :: elem list)) = [(0, 0, 0), (1, 0, 0), (2, 0, 0)]"
    by blast
  then have e: "offsets (snd (parse_beam3 fl_int elem0 beam3_row []) ! 0) = [(0, 0, 0), (1, 0, 0), (2, 0, 0)]"
    by simp
  show ?thesis using h1 h2 h3 h4 h5 h6 h7 k1 k2 k3 k4 a b d e by blast
qed

section \<open>Properties of assign_labels\<close>


lemma set_label_erase: "map erase_label (snd (set_label l s xs)) = map erase_label xs"
  by (induction xs) (auto simp: erase_label_def split: prod.splits)

lemma set_label_False: "fst (set_label l s xs) = False \<Longrightarrow> snd (set_label l s xs) = xs"
  by (induction xs) (auto split: prod.splits if_splits)

lemma set_label_True: "fst (set_label l s xs) \<Longrightarrow> snd (set_label l s xs) \<noteq> xs"
proof (induction xs)
  case Nil
  then show ?case by simp
next
  case (Cons x xs)
  show ?case
  proof (cases "int_label x = l")
    case True
    with Cons.prems have "string_label x \<noteq> s" by (auto split: if_splits)
    with True show ?thesis
      by (auto dest: arg_cong [where f = string_label])
  next
    case False
    with Cons show ?thesis by (auto split: prod.splits)
  qed
qed

lemma set_label_length: "length (snd (set_label l s xs)) = length xs"
  using set_label_erase [of l s xs] by (metis length_map)

lemma set_label_changed:
  "i < length xs \<Longrightarrow> string_label (snd (set_label l s xs) ! i) \<noteq> string_label (xs ! i) \<Longrightarrow>
   int_label (xs ! i) = l"
proof (induction xs arbitrary: i)
  case Nil
  then show ?case by simp
next
  case (Cons x xs)
  show ?case
  proof (cases i)
    case 0
    with Cons.prems show ?thesis by (auto split: if_splits prod.splits)
  next
    case (Suc j)
    with Cons show ?thesis by (auto split: if_splits prod.splits)
  qed
qed


lemma label_nd_Inl: "label_int line = Inl e \<Longrightarrow> label_nd line et ss cm = (Inl e, snd cm)"
  by (simp add: label_nd_def assign_label_def)

lemma label_ed_Inl: "label_int line = Inl e \<Longrightarrow> label_ed line et ss cm = (Inl e, snd cm)"
  by (simp add: label_ed_def assign_label_def)

lemma label_rd_Inl: "label_int line = Inl e \<Longrightarrow> label_rd line et ss cm = (Inl e, snd cm)"
  by (simp add: label_rd_def assign_label_def)

lemma label_nd_Inr:
  "label_int line = Inr l \<Longrightarrow>
   label_nd line et ss cm =
     (Inr (fst cm + of_bool (fst (set_label l (label_str (free_labels (snd cm)) line et ss) (mbs_nodes (snd cm))))),
      (snd cm)\<lparr>mbs_nodes := snd (set_label l (label_str (free_labels (snd cm)) line et ss) (mbs_nodes (snd cm)))\<rparr>)"
  by (simp add: label_nd_def assign_label_def split: prod.splits)

lemma label_ed_Inr:
  "label_int line = Inr l \<Longrightarrow>
   label_ed line et ss cm =
     (Inr (fst cm + of_bool (fst (set_label l (label_str (free_labels (snd cm)) line et ss) (elems (snd cm))))),
      (snd cm)\<lparr>elems := snd (set_label l (label_str (free_labels (snd cm)) line et ss) (elems (snd cm)))\<rparr>)"
  by (simp add: label_ed_def assign_label_def split: prod.splits)

lemma label_rd_Inr:
  "label_int line = Inr l \<Longrightarrow>
   label_rd line et ss cm =
     (Inr (fst cm + of_bool (fst (set_label l (label_str (free_labels (snd cm)) line et ss) (references (snd cm))))),
      (snd cm)\<lparr>references := snd (set_label l (label_str (free_labels (snd cm)) line et ss) (references (snd cm)))\<rparr>)"
  by (simp add: label_rd_def assign_label_def split: prod.splits)

lemma same_entities_refl: "same_entities m m"
  by (simp add: same_entities_def)

lemma int_of_cases: "int_of s = Inl ValueError \<or> (\<exists>n. int_of s = Inr n)"
  by (simp add: int_of_def split: option.splits)

lemma label_int_cases: "label_int line = Inl ValueError \<or> (\<exists>n. label_int line = Inr n)"
  unfolding label_int_def Let_def by (rule int_of_cases)

lemma step_ok_skip: "\<not> recognised (free_labels (snd cm)) line \<Longrightarrow> step_ok line cm (Inr (fst cm), snd cm)"
  by (simp add: step_ok_def same_entities_refl)

lemma step_ok_nd:
  assumes "recognised (free_labels (snd cm)) line"
  shows "step_ok line cm (label_nd line et ss cm)"
proof -
  consider "label_int line = Inl ValueError" | l where "label_int line = Inr l"
    using label_int_cases by blast
  then show ?thesis
  proof cases
    case 1
    then show ?thesis using assms by (simp add: label_nd_Inl step_ok_def same_entities_refl)
  next
    case 2
    let ?r = "set_label l (label_str (free_labels (snd cm)) line et ss) (mbs_nodes (snd cm))"
    have ne: "fst ?r \<Longrightarrow> (snd cm)\<lparr>mbs_nodes := snd ?r\<rparr> \<noteq> snd cm"
      using set_label_True [of l _ "mbs_nodes (snd cm)"]
      by (metis settings.select_convs(1) settings.surjective settings.update_convs(1))
    show ?thesis
      using 2 ne set_label_False [of l "label_str (free_labels (snd cm)) line et ss" "mbs_nodes (snd cm)"]
        set_label_changed [of _ "mbs_nodes (snd cm)" l "label_str (free_labels (snd cm)) line et ss"]
      by (auto simp: label_nd_Inr step_ok_def same_entities_def set_label_erase)
  qed
qed


lemma step_ok_ed:
  assumes "recognised (free_labels (snd cm)) line"
  shows "step_ok line cm (label_ed line et ss cm)"
proof -
  consider "label_int line = Inl ValueError" | l where "label_int line = Inr l"
    using label_int_cases by blast
  then show ?thesis
  proof cases
    case 1
    then show ?thesis using assms by (simp add: label_ed_Inl step_ok_def same_entities_refl)
  next
    case 2
    let ?r = "set_label l (label_str (free_labels (snd cm)) line et ss) (elems (snd cm))"
    have ne: "fst ?r \<Longrightarrow> (snd cm)\<lparr>elems := snd ?r\<rparr> \<noteq> snd cm"
      using set_label_True [of l _ "elems (snd cm)"]
      by (metis settings.select_convs(2) settings.surjective settings.update_convs(2))
    show ?thesis
      using 2 ne set_label_False [of l "label_str (free_labels (snd cm)) line et ss" "elems (snd cm)"]
        set_label_changed [of _ "elems (snd cm)" l "label_str (free_labels (snd cm)) line et ss"]
      by (auto simp: label_ed_Inr step_ok_def same_entities_def set_label_erase)
  qed
qed

lemma step_ok_rd:
  assumes "recognised (free_labels (snd cm)) line"
  shows "step_ok line cm (label_rd line et ss cm)"
proof -
  consider "label_int line = Inl ValueError" | l where "label_int line = Inr l"
    using label_int_cases by blast
  then show ?thesis
  proof cases
    case 1
    then show ?thesis using assms by (simp add: label_rd_Inl step_ok_def same_entities_refl)
  next
    case 2
    let ?r = "set_label l (label_str (free_labels (snd cm)) line et ss) (references (snd cm))"
    have ne: "fst ?r \<Longrightarrow> (snd cm)\<lparr>references := snd ?r\<rparr> \<noteq> snd cm"
      using set_label_True [of l _ "references (snd cm)"]
      by (metis settings.select_convs(3) settings.surjective settings.update_convs(3))
    show ?thesis
      using 2 ne set_label_False [of l "label_str (free_labels (snd cm)) line et ss" "references (snd cm)"]
        set_label_changed [of _ "references (snd cm)" l "label_str (free_labels (snd cm)) line et ss"]
      by (auto simp: label_rd_Inr step_ok_def same_entities_def set_label_erase)
  qed
qed

lemma step_ok_free:
  assumes "free_labels (snd cm)"
  shows "step_ok line cm (label_line_free line cm)"
proof (cases "List.find (contains line) set_strings_any")
  case None
  then have "\<not> recognised (free_labels (snd cm)) line" using assms by (simp add: recognised_def)
  then show ?thesis using None step_ok_skip by (simp add: label_line_free_def)
next
  case (Some ss)
  then have rec: "recognised (free_labels (snd cm)) line" using assms by (simp add: recognised_def)
  consider "label_int line = Inl ValueError" | l where "label_int line = Inr l"
    using label_int_cases by blast
  then show ?thesis
  proof cases
    case 1
    then show ?thesis using Some rec
      by (simp add: label_line_free_def label_nd_Inl step_ok_def same_entities_refl)
  next
    case 2
    let ?s = "label_str True line [] ss"
    let ?m = "snd cm"
    let ?a = "set_label l ?s (mbs_nodes ?m)"
    let ?b = "set_label l ?s (elems ?m)"
    let ?c = "set_label l ?s (references ?m)"
    have r: "label_line_free line cm =
        (Inr (fst cm + of_bool (fst ?a) + of_bool (fst ?b) + of_bool (fst ?c)),
         ?m\<lparr>mbs_nodes := snd ?a, elems := snd ?b, references := snd ?c\<rparr>)"
      using Some 2 assms by (simp add: label_line_free_def label_nd_Inr label_ed_Inr label_rd_Inr)
    have na: "fst ?a \<Longrightarrow> ?m\<lparr>mbs_nodes := snd ?a, elems := snd ?b, references := snd ?c\<rparr> \<noteq> ?m"
      using set_label_True [of l ?s "mbs_nodes ?m"]
      by (auto dest: arg_cong [where f = mbs_nodes])
    have nb: "fst ?b \<Longrightarrow> ?m\<lparr>mbs_nodes := snd ?a, elems := snd ?b, references := snd ?c\<rparr> \<noteq> ?m"
      using set_label_True [of l ?s "elems ?m"]
      by (auto dest: arg_cong [where f = elems])
    have nc: "fst ?c \<Longrightarrow> ?m\<lparr>mbs_nodes := snd ?a, elems := snd ?b, references := snd ?c\<rparr> \<noteq> ?m"
      using set_label_True [of l ?s "references ?m"]
      by (auto dest: arg_cong [where f = references])
    have eq: "\<not> fst ?a \<Longrightarrow> \<not> fst ?b \<Longrightarrow> \<not> fst ?c \<Longrightarrow>
        ?m\<lparr>mbs_nodes := snd ?a, elems := snd ?b, references := snd ?c\<rparr> = ?m"
      using set_label_False [of l ?s "mbs_nodes ?m"] set_label_False [of l ?s "elems ?m"]
        set_label_False [of l ?s "references ?m"] by simp
    have fr: "same_entities ?m (?m\<lparr>mbs_nodes := snd ?a, elems := snd ?b, references := snd ?c\<rparr>)"
      by (simp add: same_entities_def set_label_erase)
    show ?thesis
      unfolding r step_ok_def
      using 2 na nb nc eq fr
        set_label_changed [of _ "mbs_nodes ?m" l ?s] set_label_changed [of _ "elems ?m" l ?s]
        set_label_changed [of _ "references ?m" l ?s]
      by (auto split: if_splits)
  qed
qed

lemma find_append_None: "List.find P (xs @ ys) = None \<longleftrightarrow> List.find P xs = None \<and> List.find P ys = None"
  by (induction xs) auto

lemma step_ok_standard:
  assumes "\<not> free_labels (snd cm)"
  shows "step_ok line cm (label_line_standard line cm)"
proof (cases "recognised (free_labels (snd cm)) line")
  case False
  then have "List.find (contains line) set_strings_node = None"
    "List.find (contains line) set_strings_joint = None"
    "List.find (contains line) set_strings_beam = None"
    "List.find (contains line) set_strings_refs = None"
    using assms by (simp_all add: recognised_def find_append_None)
  then show ?thesis using False step_ok_skip by (simp add: label_line_standard_def)
next
  case True
  then show ?thesis
    using step_ok_nd step_ok_ed step_ok_rd assms
    by (auto simp: label_line_standard_def recognised_def find_append_None split: option.splits)
qed

lemma step_ok_line: "step_ok line cm (label_line line cm)"
  by (simp add: label_line_def step_ok_free step_ok_standard)


lemma same_entities_trans: "same_entities a b \<Longrightarrow> same_entities b c \<Longrightarrow> same_entities a c"
  by (simp add: same_entities_def)

lemma erase_label_nth:
  assumes "map erase_label xs = map erase_label ys" and "i < length xs"
  shows "int_label (ys ! i) = int_label (xs ! i)"
proof -
  have l: "length xs = length ys" using assms(1) by (metis length_map)
  have "erase_label (xs ! i) = erase_label (ys ! i)"
    using assms l by (metis nth_map)
  then have "int_label (erase_label (xs ! i)) = int_label (erase_label (ys ! i))" by simp
  then show ?thesis by (simp add: erase_label_def)
qed

lemma same_entities_free: "same_entities a b \<Longrightarrow> free_labels b = free_labels a"
  by (auto simp: same_entities_def dest: arg_cong [where f = free_labels])

lemma same_entities_lengths:
  "same_entities a b \<Longrightarrow> length (mbs_nodes b) = length (mbs_nodes a)
     \<and> length (elems b) = length (elems a) \<and> length (references b) = length (references a)"
  unfolding same_entities_def by (metis length_map)

lemma label_line_cases:
  obtains (raise) m where "label_line line cm = (Inl ValueError, m)"
      "label_int line = Inl ValueError" "recognised (free_labels (snd cm)) line" "same_entities (snd cm) m"
  | (ok) c m where "label_line line cm = (Inr c, m)" "fst cm \<le> c" "c = fst cm \<longrightarrow> m = snd cm"
      "fst cm < c \<longrightarrow> m \<noteq> snd cm"
      "recognised (free_labels (snd cm)) line \<longrightarrow> label_int line \<noteq> Inl ValueError"
      "same_entities (snd cm) m"
proof (cases "label_line line cm")
  case (Pair r m)
  have s: "step_ok line cm (r, m)" using step_ok_line [of line cm] Pair by simp
  show ?thesis
  proof (cases r)
    case (Inl e)
    with s Pair raise show ?thesis by (auto simp: step_ok_def)
  next
    case (Inr c)
    with s Pair ok show ?thesis by (auto simp: step_ok_def)
  qed
qed

lemma lines_frame: "same_entities (snd cm) (snd (label_lines ls cm))"
proof (induction ls arbitrary: cm)
  case Nil
  then show ?case by (simp add: same_entities_refl)
next
  case (Cons line rest)
  show ?case
  proof (cases rule: label_line_cases [of line cm])
    case (raise m)
    then show ?thesis by simp
  next
    case (ok c m)
    have "same_entities (snd (c, m)) (snd (label_lines rest (c, m)))" by (rule Cons.IH)
    with ok show ?thesis by (auto intro: same_entities_trans)
  qed
qed

lemma lines_Inr:
  "label_lines ls cm = (Inr c', m') \<Longrightarrow> fst cm \<le> c' \<and> (c' = fst cm \<longrightarrow> m' = snd cm)"
proof (induction ls arbitrary: cm)
  case Nil
  then show ?case by auto
next
  case (Cons line rest)
  show ?case
  proof (cases rule: label_line_cases [of line cm])
    case (raise m)
    with Cons.prems show ?thesis by simp
  next
    case (ok c m)
    with Cons.prems have "label_lines rest (c, m) = (Inr c', m')" by simp
    from Cons.IH [OF this] ok show ?thesis by auto
  qed
qed

lemma lines_changed_prefix:
  "label_lines ls cm = (Inr c', m') \<Longrightarrow> fst cm < c' \<Longrightarrow>
   \<exists>k \<le> length ls. snd (label_lines (take k ls) cm) \<noteq> snd cm"
proof (induction ls arbitrary: cm)
  case Nil
  then show ?case by auto
next
  case (Cons line rest)
  show ?case
  proof (cases rule: label_line_cases [of line cm])
    case (raise m)
    with Cons.prems show ?thesis by simp
  next
    case (ok c m)
    with Cons.prems have r: "label_lines rest (c, m) = (Inr c', m')" by simp
    show ?thesis
    proof (cases "fst cm < c")
      case True
      with ok have "snd (label_lines (take 1 (line # rest)) cm) \<noteq> snd cm" by simp
      then show ?thesis by (intro exI [of _ 1]) simp
    next
      case False
      with ok have e: "c = fst cm" "m = snd cm" by auto
      with Cons.prems have "fst (c, m) < c'" by simp
      from Cons.IH [OF r this] obtain k where k: "k \<le> length rest"
        "snd (label_lines (take k rest) (c, m)) \<noteq> snd (c, m)" by blast
      with ok e have "snd (label_lines (take (Suc k) (line # rest)) cm) \<noteq> snd cm" by simp
      with k(1) show ?thesis by (intro exI [of _ "Suc k"]) simp
    qed
  qed
qed

lemma lines_unchanged_prefix:
  "label_lines ls cm = (Inr (fst cm), m') \<Longrightarrow> label_lines (take k ls) cm = (Inr (fst cm), snd cm)"
proof (induction ls arbitrary: cm k)
  case Nil
  then show ?case by simp
next
  case (Cons line rest)
  show ?case
  proof (cases rule: label_line_cases [of line cm])
    case (raise m)
    with Cons.prems show ?thesis by simp
  next
    case (ok c m)
    with Cons.prems have r: "label_lines rest (c, m) = (Inr (fst cm), m')" by simp
    from lines_Inr [OF r] ok have e: "c = fst cm" "m = snd cm" by auto
    show ?thesis
    proof (cases k)
      case 0
      then show ?thesis by simp
    next
      case (Suc j)
      have "label_lines (take j rest) (c, m) = (Inr (fst (c, m)), snd (c, m))"
        using Cons.IH [of "(c, m)" j] r e by simp
      with ok e Suc show ?thesis by simp
    qed
  qed
qed

lemma lines_total:
  "\<forall>line \<in> set ls. recognised (free_labels (snd cm)) line \<longrightarrow> label_int line \<noteq> Inl ValueError \<Longrightarrow>
   \<exists>c' m'. label_lines ls cm = (Inr c', m')"
proof (induction ls arbitrary: cm)
  case Nil
  then show ?case by simp
next
  case (Cons line rest)
  show ?case
  proof (cases rule: label_line_cases [of line cm])
    case (raise m)
    with Cons.prems show ?thesis by simp
  next
    case (ok c m)
    have "free_labels m = free_labels (snd cm)" using ok same_entities_free by blast
    with Cons.prems have "\<forall>l \<in> set rest. recognised (free_labels (snd (c, m))) l \<longrightarrow> label_int l \<noteq> Inl ValueError"
      by simp
    from Cons.IH [OF this] ok show ?thesis by simp
  qed
qed

lemma lines_raise:
  "fst (label_lines ls cm) = Inl e \<Longrightarrow>
   e = ValueError \<and> (\<exists>line \<in> set ls. recognised (free_labels (snd cm)) line \<and> label_int line = Inl ValueError)"
proof (induction ls arbitrary: cm)
  case Nil
  then show ?case by simp
next
  case (Cons line rest)
  show ?case
  proof (cases rule: label_line_cases [of line cm])
    case (raise m)
    with Cons.prems show ?thesis by simp
  next
    case (ok c m)
    have f: "free_labels m = free_labels (snd cm)" using ok same_entities_free by blast
    from ok Cons.prems have "fst (label_lines rest (c, m)) = Inl e" by simp
    from Cons.IH [OF this] f show ?thesis by auto
  qed
qed

lemma label_lines_append:
  "label_lines (xs @ ys) cm =
     (case label_lines xs cm of (Inl e, m) \<Rightarrow> (Inl e, m) | (Inr c, m) \<Rightarrow> label_lines ys (c, m))"
  by (induction xs arbitrary: cm) (auto split: prod.splits sum.splits)

lemma line_must_raise:
  assumes "recognised (free_labels (snd cm)) line" and "label_int line = Inl ValueError"
  shows "label_line line cm = (Inl ValueError, snd cm)"
proof (cases "free_labels (snd cm)")
  case True
  with assms show ?thesis
    by (auto simp: label_line_def label_line_free_def recognised_def label_nd_Inl)
next
  case False
  with assms show ?thesis
    by (auto simp: label_line_def label_line_standard_def recognised_def find_append_None
        label_nd_Inl label_ed_Inl label_rd_Inl split: option.splits)
qed

lemma lines_must_raise:
  "\<exists>line \<in> set ls. recognised (free_labels (snd cm)) line \<and> label_int line = Inl ValueError \<Longrightarrow>
   fst (label_lines ls cm) = Inl ValueError"
proof (induction ls arbitrary: cm)
  case Nil
  then show ?case by simp
next
  case (Cons line rest)
  show ?case
  proof (cases rule: label_line_cases [of line cm])
    case (raise m)
    then show ?thesis by simp
  next
    case (ok c m)
    have f: "free_labels m = free_labels (snd cm)" using ok same_entities_free by blast
    from ok Cons.prems f
    have "\<exists>l \<in> set rest. recognised (free_labels (snd (c, m))) l \<and> label_int l = Inl ValueError"
      by auto
    from Cons.IH [OF this] ok show ?thesis by simp
  qed
qed

lemma lines_raise_at:
  assumes "\<forall>line \<in> set pre. recognised (free_labels (snd cm)) line \<longrightarrow> label_int line \<noteq> Inl ValueError"
    and "recognised (free_labels (snd cm)) bad" and "label_int bad = Inl ValueError"
  shows "label_lines (pre @ bad # post) cm = (Inl ValueError, snd (label_lines pre cm))"
proof -
  obtain c m where r: "label_lines pre cm = (Inr c, m)"
    using lines_total [OF assms(1)] by blast
  have "same_entities (snd cm) m" using lines_frame [of cm pre] r by simp
  then have "free_labels m = free_labels (snd cm)" by (rule same_entities_free)
  with assms have "label_line bad (c, m) = (Inl ValueError, m)"
    using line_must_raise [of "(c, m)" bad] by simp
  with r show ?thesis by (simp add: label_lines_append)
qed


lemma line_strict:
  "i < length (mbs_nodes (snd cm)) \<Longrightarrow>
     string_label (mbs_nodes (snd (label_line line cm)) ! i) \<noteq> string_label (mbs_nodes (snd cm) ! i) \<Longrightarrow>
     label_int line = Inr (int_label (mbs_nodes (snd cm) ! i))"
  "i < length (elems (snd cm)) \<Longrightarrow>
     string_label (elems (snd (label_line line cm)) ! i) \<noteq> string_label (elems (snd cm) ! i) \<Longrightarrow>
     label_int line = Inr (int_label (elems (snd cm) ! i))"
  "i < length (references (snd cm)) \<Longrightarrow>
     string_label (references (snd (label_line line cm)) ! i) \<noteq> string_label (references (snd cm) ! i) \<Longrightarrow>
     label_int line = Inr (int_label (references (snd cm) ! i))"
  using step_ok_line [of line cm] by (simp_all add: step_ok_def)

lemma lines_head:
  "label_lines (line # rest) cm =
     (case fst (label_line line cm) of Inl e \<Rightarrow> label_line line cm
      | Inr c \<Rightarrow> label_lines rest (c, snd (label_line line cm)))"
  by (cases "label_line line cm") (auto split: sum.splits)

lemma lines_strict_nodes:
  "i < length (mbs_nodes (snd cm)) \<Longrightarrow>
   string_label (mbs_nodes (snd (label_lines ls cm)) ! i) \<noteq> string_label (mbs_nodes (snd cm) ! i) \<Longrightarrow>
   \<exists>line \<in> set ls. label_int line = Inr (int_label (mbs_nodes (snd cm) ! i))"
proof (induction ls arbitrary: cm)
  case Nil
  then show ?case by simp
next
  case (Cons line rest)
  let ?r = "label_line line cm"
  have fr: "same_entities (snd cm) (snd ?r)"
    using step_ok_line [of line cm] by (simp add: step_ok_def)
  show ?case
  proof (cases "string_label (mbs_nodes (snd ?r) ! i) \<noteq> string_label (mbs_nodes (snd cm) ! i)")
    case True
    with line_strict(1) [OF Cons.prems(1)] show ?thesis by auto
  next
    case False
    show ?thesis
    proof (cases "fst ?r")
      case (Inl e)
      with Cons.prems False show ?thesis by (simp add: lines_head del: label_lines.simps)
    next
      case (Inr c)
      have len: "i < length (mbs_nodes (snd (c, snd ?r)))"
        using same_entities_lengths [OF fr] Cons.prems(1) by simp
      have lab: "int_label (mbs_nodes (snd ?r) ! i) = int_label (mbs_nodes (snd cm) ! i)"
        using fr Cons.prems(1) erase_label_nth [of "mbs_nodes (snd cm)" "mbs_nodes (snd ?r)" i]
        by (simp add: same_entities_def)
      have "string_label (mbs_nodes (snd (label_lines rest (c, snd ?r))) ! i)
          \<noteq> string_label (mbs_nodes (snd (c, snd ?r)) ! i)"
        using Cons.prems(2) False Inr by (simp add: lines_head del: label_lines.simps)
      from Cons.IH [OF len this] lab show ?thesis by auto
    qed
  qed
qed

lemma lines_strict_elems:
  "i < length (elems (snd cm)) \<Longrightarrow>
   string_label (elems (snd (label_lines ls cm)) ! i) \<noteq> string_label (elems (snd cm) ! i) \<Longrightarrow>
   \<exists>line \<in> set ls. label_int line = Inr (int_label (elems (snd cm) ! i))"
proof (induction ls arbitrary: cm)
  case Nil
  then show ?case by simp
next
  case (Cons line rest)
  let ?r = "label_line line cm"
  have fr: "same_entities (snd cm) (snd ?r)"
    using step_ok_line [of line cm] by (simp add: step_ok_def)
  show ?case
  proof (cases "string_label (elems (snd ?r) ! i) \<noteq> string_label (elems (snd cm) ! i)")
    case True
    with line_strict(2) [OF Cons.prems(1)] show ?thesis by auto
  next
    case False
    show ?thesis
    proof (cases "fst ?r")
      case (Inl e)
      with Cons.prems False show ?thesis by (simp add: lines_head del: label_lines.simps)
    next
      case (Inr c)
      have len: "i < length (elems (snd (c, snd ?r)))"
        using same_entities_lengths [OF fr] Cons.prems(1) by simp
      have lab: "int_label (elems (snd ?r) ! i) = int_label (elems (snd cm) ! i)"
        using fr Cons.prems(1) erase_label_nth [of "elems (snd cm)" "elems (snd ?r)" i]
        by (simp add: same_entities_def)
      have "string_label (elems (snd (label_lines rest (c, snd ?r))) ! i)
          \<noteq> string_label (elems (snd (c, snd ?r)) ! i)"
        using Cons.prems(2) False Inr by (simp add: lines_head del: label_lines.simps)
      from Cons.IH [OF len this] lab show ?thesis by auto
    qed
  qed
qed

lemma lines_strict_references:
  "i < length (references (snd cm)) \<Longrightarrow>
   string_label (references (snd (label_lines ls cm)) ! i) \<noteq> string_label (references (snd cm) ! i) \<Longrightarrow>
   \<exists>line \<in> set ls. label_int line = Inr (int_label (references (snd cm) ! i))"
proof (induction ls arbitrary: cm)
  case Nil
  then show ?case by simp
next
  case (Cons line rest)
  let ?r = "label_line line cm"
  have fr: "same_entities (snd cm) (snd ?r)"
    using step_ok_line [of line cm] by (simp add: step_ok_def)
  show ?case
  proof (cases "string_label (references (snd ?r) ! i) \<noteq> string_label (references (snd cm) ! i)")
    case True
    with line_strict(3) [OF Cons.prems(1)] show ?thesis by auto
  next
    case False
    show ?thesis
    proof (cases "fst ?r")
      case (Inl e)
      with Cons.prems False show ?thesis by (simp add: lines_head del: label_lines.simps)
    next
      case (Inr c)
      have len: "i < length (references (snd (c, snd ?r)))"
        using same_entities_lengths [OF fr] Cons.prems(1) by simp
      have lab: "int_label (references (snd ?r) ! i) = int_label (references (snd cm) ! i)"
        using fr Cons.prems(1) erase_label_nth [of "references (snd cm)" "references (snd ?r)" i]
        by (simp add: same_entities_def)
      have "string_label (references (snd (label_lines rest (c, snd ?r))) ! i)
          \<noteq> string_label (references (snd (c, snd ?r)) ! i)"
        using Cons.prems(2) False Inr by (simp add: lines_head del: label_lines.simps)
      from Cons.IH [OF len this] lab show ?thesis by auto
    qed
  qed
qed

lemma assign_labels_snd: "snd (assign_labels (Some ls) mbs) = snd (label_lines ls (0, mbs))"
  by (simp add: assign_labels_def split: prod.splits sum.splits)

lemma assign_labels_fst:
  "fst (assign_labels (Some ls) mbs) =
     (case fst (label_lines ls (0, mbs)) of Inl e \<Rightarrow> Inl e
      | Inr c \<Rightarrow> Inr (if c \<noteq> 0 then LABELS_UPDATED else NOTHING_DONE))"
  by (simp add: assign_labels_def split: prod.splits sum.splits)


lemma assign_labels_parts:
  "same_entities mbs (snd (assign_labels lf mbs))"
  "assign_labels None mbs = (Inr FILE_NOT_FOUND, mbs)"
  "fst (assign_labels (Some ls) mbs) \<noteq> Inr FILE_NOT_FOUND"
  "(\<forall>line \<in> set ls. recognised (free_labels mbs) line \<longrightarrow> label_int line \<noteq> Inl ValueError) \<longrightarrow>
     fst (assign_labels (Some ls) mbs) = Inr LABELS_UPDATED
     \<or> fst (assign_labels (Some ls) mbs) = Inr NOTHING_DONE"
  "fst (assign_labels (Some ls) mbs) = Inr LABELS_UPDATED \<longrightarrow>
     (\<exists>k \<le> length ls. snd (assign_labels (Some (take k ls)) mbs) \<noteq> mbs)"
  "fst (assign_labels (Some ls) mbs) = Inr NOTHING_DONE \<longrightarrow>
     snd (assign_labels (Some ls) mbs) = mbs
     \<and> (\<forall>k. snd (assign_labels (Some (take k ls)) mbs) = mbs)"
  "fst (assign_labels (Some ls) mbs) = Inl e \<longrightarrow>
     e = ValueError
     \<and> (\<exists>line \<in> set ls. recognised (free_labels mbs) line \<and> label_int line = Inl ValueError)"
  "(\<exists>line \<in> set ls. recognised (free_labels mbs) line \<and> label_int line = Inl ValueError) \<longrightarrow>
     fst (assign_labels (Some ls) mbs) = Inl ValueError"
  "(\<forall>line \<in> set pre. recognised (free_labels mbs) line \<longrightarrow> label_int line \<noteq> Inl ValueError)
     \<and> recognised (free_labels mbs) bad \<and> label_int bad = Inl ValueError \<longrightarrow>
     assign_labels (Some (pre @ bad # post)) mbs = (Inl ValueError, snd (assign_labels (Some pre) mbs))"
  "\<forall>i < length (mbs_nodes mbs).
     string_label (mbs_nodes (snd (assign_labels (Some ls) mbs)) ! i) \<noteq> string_label (mbs_nodes mbs ! i) \<longrightarrow>
     (\<exists>line \<in> set ls. label_int line = Inr (int_label (mbs_nodes mbs ! i)))"
  "\<forall>i < length (elems mbs).
     string_label (elems (snd (assign_labels (Some ls) mbs)) ! i) \<noteq> string_label (elems mbs ! i) \<longrightarrow>
     (\<exists>line \<in> set ls. label_int line = Inr (int_label (elems mbs ! i)))"
  "\<forall>i < length (references mbs).
     string_label (references (snd (assign_labels (Some ls) mbs)) ! i) \<noteq> string_label (references mbs ! i) \<longrightarrow>
     (\<exists>line \<in> set ls. label_int line = Inr (int_label (references mbs ! i)))"
proof -
  show "same_entities mbs (snd (assign_labels lf mbs))"
  proof (cases lf)
    case None
    then show ?thesis by (simp add: assign_labels_def same_entities_refl)
  next
    case (Some ls')
    then show ?thesis using lines_frame [of "(0, mbs)" ls'] by (simp add: assign_labels_snd)
  qed
  show "assign_labels None mbs = (Inr FILE_NOT_FOUND, mbs)" by (simp add: assign_labels_def)
  show "fst (assign_labels (Some ls) mbs) \<noteq> Inr FILE_NOT_FOUND"
    by (simp add: assign_labels_fst split: sum.splits)
  show "(\<forall>line \<in> set ls. recognised (free_labels mbs) line \<longrightarrow> label_int line \<noteq> Inl ValueError) \<longrightarrow>
     fst (assign_labels (Some ls) mbs) = Inr LABELS_UPDATED
     \<or> fst (assign_labels (Some ls) mbs) = Inr NOTHING_DONE"
  proof
    assume "\<forall>line \<in> set ls. recognised (free_labels mbs) line \<longrightarrow> label_int line \<noteq> Inl ValueError"
    then obtain c m where "label_lines ls (0, mbs) = (Inr c, m)"
      using lines_total [of ls "(0, mbs)"] by auto
    then show "fst (assign_labels (Some ls) mbs) = Inr LABELS_UPDATED
     \<or> fst (assign_labels (Some ls) mbs) = Inr NOTHING_DONE"
      by (simp add: assign_labels_fst)
  qed
  show "fst (assign_labels (Some ls) mbs) = Inr LABELS_UPDATED \<longrightarrow>
     (\<exists>k \<le> length ls. snd (assign_labels (Some (take k ls)) mbs) \<noteq> mbs)"
  proof
    assume a: "fst (assign_labels (Some ls) mbs) = Inr LABELS_UPDATED"
    then obtain c m where r: "label_lines ls (0, mbs) = (Inr c, m)" and c: "0 < c"
      by (cases "label_lines ls (0, mbs)")
        (auto simp: assign_labels_fst split: sum.splits if_splits)
    from lines_changed_prefix [OF r] c
    show "\<exists>k \<le> length ls. snd (assign_labels (Some (take k ls)) mbs) \<noteq> mbs"
      by (simp add: assign_labels_snd)
  qed
  show "fst (assign_labels (Some ls) mbs) = Inr NOTHING_DONE \<longrightarrow>
     snd (assign_labels (Some ls) mbs) = mbs
     \<and> (\<forall>k. snd (assign_labels (Some (take k ls)) mbs) = mbs)"
  proof
    assume a: "fst (assign_labels (Some ls) mbs) = Inr NOTHING_DONE"
    then obtain m where r: "label_lines ls (0, mbs) = (Inr (fst (0 :: nat, mbs)), m)"
      by (cases "label_lines ls (0, mbs)")
        (auto simp: assign_labels_fst split: sum.splits if_splits)
    have "m = mbs" using lines_Inr [OF r] by simp
    moreover have "\<And>k. snd (label_lines (take k ls) (0, mbs)) = mbs"
      using lines_unchanged_prefix [OF r] by simp
    ultimately show "snd (assign_labels (Some ls) mbs) = mbs
     \<and> (\<forall>k. snd (assign_labels (Some (take k ls)) mbs) = mbs)"
      using r by (simp add: assign_labels_snd)
  qed
  show "fst (assign_labels (Some ls) mbs) = Inl e \<longrightarrow>
     e = ValueError
     \<and> (\<exists>line \<in> set ls. recognised (free_labels mbs) line \<and> label_int line = Inl ValueError)"
  proof
    assume "fst (assign_labels (Some ls) mbs) = Inl e"
    then have "fst (label_lines ls (0, mbs)) = Inl e"
      by (simp add: assign_labels_fst split: sum.splits)
    from lines_raise [OF this]
    show "e = ValueError
     \<and> (\<exists>line \<in> set ls. recognised (free_labels mbs) line \<and> label_int line = Inl ValueError)"
      by simp
  qed
  show "(\<exists>line \<in> set ls. recognised (free_labels mbs) line \<and> label_int line = Inl ValueError) \<longrightarrow>
     fst (assign_labels (Some ls) mbs) = Inl ValueError"
    using lines_must_raise [of ls "(0, mbs)"] by (simp add: assign_labels_fst)
  show "(\<forall>line \<in> set pre. recognised (free_labels mbs) line \<longrightarrow> label_int line \<noteq> Inl ValueError)
     \<and> recognised (free_labels mbs) bad \<and> label_int bad = Inl ValueError \<longrightarrow>
     assign_labels (Some (pre @ bad # post)) mbs = (Inl ValueError, snd (assign_labels (Some pre) mbs))"
  proof
    assume h: "(\<forall>line \<in> set pre. recognised (free_labels mbs) line \<longrightarrow> label_int line \<noteq> Inl ValueError)
     \<and> recognised (free_labels mbs) bad \<and> label_int bad = Inl ValueError"
    then have "label_lines (pre @ bad # post) (0, mbs) = (Inl ValueError, snd (label_lines pre (0, mbs)))"
      using lines_raise_at [of pre "(0, mbs)" bad post] by simp
    then show "assign_labels (Some (pre @ bad # post)) mbs = (Inl ValueError, snd (assign_labels (Some pre) mbs))"
      by (simp add: assign_labels_snd) (simp add: assign_labels_def)
  qed
  show "\<forall>i < length (mbs_nodes mbs).
     string_label (mbs_nodes (snd (assign_labels (Some ls) mbs)) ! i) \<noteq> string_label (mbs_nodes mbs ! i) \<longrightarrow>
     (\<exists>line \<in> set ls. label_int line = Inr (int_label (mbs_nodes mbs ! i)))"
    using lines_strict_nodes [of _ "(0, mbs)" ls] by (simp add: assign_labels_snd)
  show "\<forall>i < length (elems mbs).
     string_label (elems (snd (assign_labels (Some ls) mbs)) ! i) \<noteq> string_label (elems mbs ! i) \<longrightarrow>
     (\<exists>line \<in> set ls. label_int line = Inr (int_label (elems mbs ! i)))"
    using lines_strict_elems [of _ "(0, mbs)" ls] by (simp add: assign_labels_snd)
  show "\<forall>i < length (references mbs).
     string_label (references (snd (assign_labels (Some ls) mbs)) ! i) \<noteq> string_label (references mbs ! i) \<longrightarrow>
     (\<exists>line \<in> set ls. label_int line = Inr (int_label (references mbs ! i)))"
    using lines_strict_references [of _ "(0, mbs)" ls] by (simp add: assign_labels_snd)
qed

text \<open>
  Claim C6, amended. For every log and on every way out of the call, also when a line
  makes \<^verbatim>\<open>int\<close> raise, \<open>assign_labels\<close> creates and removes no entity and changes no
  field but string labels (\<open>same_entities\<close>), and the string label of an entity changes
  only if its integer label is the value of some line of the log. It returns
  FILE_NOT_FOUND when the log cannot be opened, and only then. When every line the scan
  recognises has an integer after its equals sign, it returns LABELS_UPDATED or
  NOTHING_DONE: LABELS_UPDATED only if the registry differs from the initial one after
  some prefix of the lines, NOTHING_DONE only if it never does. ValueError leaves the
  call, and no status is returned, exactly when some recognised line has no integer
  there; the settings are then as the lines before the first such line left them.
\<close>

theorem assign_labels_effect:
  "same_entities mbs (snd (assign_labels lf mbs))
   \<and> assign_labels None mbs = (Inr FILE_NOT_FOUND, mbs)
   \<and> fst (assign_labels (Some ls) mbs) \<noteq> Inr FILE_NOT_FOUND
   \<and> ((\<forall>line \<in> set ls. recognised (free_labels mbs) line \<longrightarrow> label_int line \<noteq> Inl ValueError) \<longrightarrow>
        fst (assign_labels (Some ls) mbs) = Inr LABELS_UPDATED
        \<or> fst (assign_labels (Some ls) mbs) = Inr NOTHING_DONE)
   \<and> (fst (assign_labels (Some ls) mbs) = Inr LABELS_UPDATED \<longrightarrow>
        (\<exists>k \<le> length ls. snd (assign_labels (Some (take k ls)) mbs) \<noteq> mbs))
   \<and> (fst (assign_labels (Some ls) mbs) = Inr NOTHING_DONE \<longrightarrow>
        snd (assign_labels (Some ls) mbs) = mbs
        \<and> (\<forall>k. snd (assign_labels (Some (take k ls)) mbs) = mbs))
   \<and> (fst (assign_labels (Some ls) mbs) = Inl e \<longrightarrow>
        e = ValueError
        \<and> (\<exists>line \<in> set ls. recognised (free_labels mbs) line \<and> label_int line = Inl ValueError))
   \<and> ((\<exists>line \<in> set ls. recognised (free_labels mbs) line \<and> label_int line = Inl ValueError) \<longrightarrow>
        fst (assign_labels (Some ls) mbs) = Inl ValueError)
   \<and> ((\<forall>line \<in> set pre. recognised (free_labels mbs) line \<longrightarrow> label_int line \<noteq> Inl ValueError)
        \<and> recognised (free_labels mbs) bad \<and> label_int bad = Inl ValueError \<longrightarrow>
        assign_labels (Some (pre @ bad # post)) mbs = (Inl ValueError, snd (assign_labels (Some pre) mbs)))
   \<and> (\<forall>i < length (mbs_nodes mbs).
        string_label (mbs_nodes (snd (assign_labels (Some ls) mbs)) ! i) \<noteq> string_label (mbs_nodes mbs ! i) \<longrightarrow>
        (\<exists>line \<in> set ls. label_int line = Inr (int_label (mbs_nodes mbs ! i))))
   \<and> (\<forall>i < length (elems mbs).
        string_label (elems (snd (assign_labels (Some ls) mbs)) ! i) \<noteq> string_label (elems mbs ! i) \<longrightarrow>
        (\<exists>line \<in> set ls. label_int line = Inr (int_label (elems mbs ! i))))
   \<and> (\<forall>i < length (references mbs).
        string_label (references (snd (assign_labels (Some ls) mbs)) ! i) \<noteq> string_label (references mbs ! i) \<longrightarrow>
        (\<exists>line \<in> set ls. label_int line = Inr (int_label (references mbs ! i))))"
  by (intro conjI) (rule assign_labels_parts)+

text \<open>The theorem on three logs: one that relabels a node, one with no label line, one whose second line raises.\<close>

theorem assign_labels_effect_witness:
  "recognised (free_labels two_nodes) node_line \<and> label_int node_line = Inr 17
   \<and> fst (assign_labels (Some [node_line]) two_nodes) = Inr LABELS_UPDATED
   \<and> (\<exists>k \<le> length [node_line]. snd (assign_labels (Some (take k [node_line])) two_nodes) \<noteq> two_nodes)
   \<and> string_label (mbs_nodes (snd (assign_labels (Some [node_line]) two_nodes)) ! 1) \<noteq> string_label (mbs_nodes two_nodes ! 1)
   \<and> (\<exists>line \<in> set [node_line]. label_int line = Inr (int_label (mbs_nodes two_nodes ! 1)))
   \<and> fst (assign_labels (Some [other_line]) two_nodes) = Inr NOTHING_DONE
   \<and> snd (assign_labels (Some [other_line]) two_nodes) = two_nodes
   \<and> recognised (free_labels two_nodes) bad_line \<and> label_int bad_line = Inl ValueError
   \<and> fst (assign_labels (Some [node_line, bad_line]) two_nodes) = Inl ValueError
   \<and> (\<exists>line \<in> set [node_line, bad_line]. recognised (free_labels two_nodes) line \<and> label_int line = Inl ValueError)
   \<and> same_entities two_nodes (snd (assign_labels (Some [node_line, bad_line]) two_nodes))
   \<and> assign_labels (Some ([node_line] @ bad_line # [other_line])) two_nodes
       = (Inl ValueError, snd (assign_labels (Some [node_line]) two_nodes))"
proof -
  note t1 = assign_labels_effect [of two_nodes "Some [node_line, bad_line]" "[node_line]" ValueError
      "[node_line]" bad_line "[other_line]"]
  note t2 = assign_labels_effect [of two_nodes "Some [node_line, bad_line]" "[other_line]" ValueError
      "[node_line]" bad_line "[other_line]"]
  note t3 = assign_labels_effect [of two_nodes "Some [node_line, bad_line]" "[node_line, bad_line]" ValueError
      "[node_line]" bad_line "[other_line]"]
  have h0: "recognised (free_labels two_nodes) node_line" by code_simp
  have h1: "label_int node_line = Inr 17" by code_simp
  have h2: "\<forall>line \<in> set [node_line]. recognised (free_labels two_nodes) line \<longrightarrow> label_int line \<noteq> Inl ValueError"
    using h1 by simp
  have h3: "fst (assign_labels (Some [node_line]) two_nodes) \<noteq> Inr NOTHING_DONE" by code_simp
  have a1: "fst (assign_labels (Some [node_line]) two_nodes) = Inr LABELS_UPDATED"
    using t1 h2 h3 by blast
  have a2: "\<exists>k \<le> length [node_line]. snd (assign_labels (Some (take k [node_line])) two_nodes) \<noteq> two_nodes"
    using t1 a1 by blast
  have i1: "1 < length (mbs_nodes two_nodes)" by code_simp
  have a3: "string_label (mbs_nodes (snd (assign_labels (Some [node_line]) two_nodes)) ! 1) \<noteq> string_label (mbs_nodes two_nodes ! 1)"
    by code_simp
  have a4: "\<exists>line \<in> set [node_line]. label_int line = Inr (int_label (mbs_nodes two_nodes ! 1))"
    using t1 i1 a3 by blast
  have b1: "fst (assign_labels (Some [other_line]) two_nodes) = Inr NOTHING_DONE" by code_simp
  have b2: "snd (assign_labels (Some [other_line]) two_nodes) = two_nodes"
    using t2 b1 by blast
  have g1: "recognised (free_labels two_nodes) bad_line" by code_simp
  have g2: "label_int bad_line = Inl ValueError" by code_simp
  have g3: "\<exists>line \<in> set [node_line, bad_line]. recognised (free_labels two_nodes) line \<and> label_int line = Inl ValueError"
    using g1 g2 by simp
  have c1: "fst (assign_labels (Some [node_line, bad_line]) two_nodes) = Inl ValueError"
    using t3 g3 by blast
  have d1: "assign_labels (Some ([node_line] @ bad_line # [other_line])) two_nodes
       = (Inl ValueError, snd (assign_labels (Some [node_line]) two_nodes))"
    using t1 h2 g1 g2 by blast
  have c2: "\<exists>line \<in> set [node_line, bad_line]. recognised (free_labels two_nodes) line \<and> label_int line = Inl ValueError"
    using t3 c1 by blast
  have c3: "same_entities two_nodes (snd (assign_labels (Some [node_line, bad_line]) two_nodes))"
    using t3 by blast
  show ?thesis using h0 h1 a1 a2 a3 a4 b1 b2 g1 g2 c1 c2 c3 d1 by blast
qed

text \<open>
  Claim C6 as stated fails on a log whose first line relabels node 17 and whose second
  line has no integer value: a stored string label has changed, and the call returns no
  status.
\<close>

theorem assign_labels_status_counterexample:
  "map string_label (mbs_nodes two_nodes) = [''none'', ''none'']
   \<and> map string_label (mbs_nodes (snd (assign_labels (Some [node_line, bad_line]) two_nodes))) = [''none'', ''Node_42'']
   \<and> fst (assign_labels (Some [node_line, bad_line]) two_nodes) = Inl ValueError
   \<and> fst (assign_labels (Some [node_line, bad_line]) two_nodes) \<noteq> Inr LABELS_UPDATED"
  by code_simp


lemma unrecognised_line:
  assumes "\<not> recognised (free_labels (snd cm)) line"
  shows "label_line line cm = (Inr (fst cm), snd cm)"
proof (cases "free_labels (snd cm)")
  case True
  with assms show ?thesis by (simp add: label_line_def label_line_free_def recognised_def)
next
  case False
  with assms show ?thesis
    by (simp add: label_line_def label_line_standard_def recognised_def find_append_None)
qed

lemma lines_unrecognised:
  "\<forall>l \<in> set ls. \<not> recognised (free_labels (snd cm)) l \<Longrightarrow> label_lines ls cm = (Inr (fst cm), snd cm)"
  by (induction ls) (simp_all add: unrecognised_line)

lemma node_line_facts:
  "List.find (contains node_line) set_strings_node = Some ''  integer Node_''"
  "label_int node_line = Inr 17"
  "label_str False node_line ''node'' ''  integer Node_'' = ''Node_42''"
  by code_simp+

lemma node_line_step:
  assumes "\<not> free_labels m"
  shows "label_line node_line (c, m) =
     (Inr (c + of_bool (fst (set_label 17 ''Node_42'' (mbs_nodes m)))),
      m\<lparr>mbs_nodes := snd (set_label 17 ''Node_42'' (mbs_nodes m))\<rparr>)"
  using assms node_line_facts(1,3) label_nd_Inr [OF node_line_facts(2), of "''node''" "''  integer Node_''" "(c, m)"]
  by (simp add: label_line_def label_line_standard_def)

lemma set_label_index_None:
  "index_of (\<lambda>x. int_label x = l) xs = None \<Longrightarrow> set_label l s xs = (False, xs)"
  by (induction xs) (auto split: if_splits)

lemma set_label_index_Some:
  "index_of (\<lambda>x. int_label x = l) xs = Some i \<Longrightarrow>
   set_label l s xs = (string_label (xs ! i) \<noteq> s, xs[i := (xs ! i)\<lparr>string_label := s\<rparr>])"
proof (induction xs arbitrary: i)
  case Nil
  then show ?case by simp
next
  case (Cons x xs)
  show ?case
  proof (cases "int_label x = l")
    case True
    with Cons.prems have "i = 0" by simp
    with True show ?thesis by auto
  next
    case False
    with Cons.prems obtain j where j: "index_of (\<lambda>x. int_label x = l) xs = Some j" "i = Suc j"
      by auto
    from Cons.IH [OF j(1)] False j(2) show ?thesis by simp
  qed
qed

text \<open>
  The line without its two leading blanks matches none of the patterns of the standard
  mode, so on any registry a log made of it changes nothing.
\<close>

lemma bare_line_unrecognised: "\<not> recognised False bare_line"
  by code_simp

lemma bare_line_nothing_done:
  assumes "\<not> free_labels mbs"
  shows "assign_labels (Some [bare_line]) mbs = (Inr NOTHING_DONE, mbs)"
  using assms bare_line_unrecognised unrecognised_line [of "(0, mbs)" bare_line]
  by (simp add: assign_labels_def)

text \<open>
  Claim C5, amended. In standard label mode, for a log holding the line
  \<^verbatim>\<open>  integer Node_42 = 17\<close> (with the two leading blanks the patterns start with) among
  lines the scan does not recognise, \<open>assign_labels\<close> sets the string label of the first
  node with integer label 17 to \<^verbatim>\<open>Node_42\<close>, prefix included, and changes nothing else
  in the settings; it returns LABELS_UPDATED, or NOTHING_DONE when the label was
  \<^verbatim>\<open>Node_42\<close> already or no node has the integer label 17.
\<close>

theorem assign_labels_node_line:
  assumes "\<not> free_labels mbs"
    and "\<forall>l \<in> set pre \<union> set post. \<not> recognised False l"
  shows "(index_of (\<lambda>x. int_label x = 17) (mbs_nodes mbs) = Some i \<longrightarrow>
            assign_labels (Some (pre @ [node_line] @ post)) mbs =
              (Inr (if string_label (mbs_nodes mbs ! i) \<noteq> ''Node_42'' then LABELS_UPDATED else NOTHING_DONE),
               mbs\<lparr>mbs_nodes := (mbs_nodes mbs)[i := (mbs_nodes mbs ! i)\<lparr>string_label := ''Node_42''\<rparr>]\<rparr>))
       \<and> (index_of (\<lambda>x. int_label x = 17) (mbs_nodes mbs) = None \<longrightarrow>
            assign_labels (Some (pre @ [node_line] @ post)) mbs = (Inr NOTHING_DONE, mbs))"
proof -
  let ?r = "set_label 17 ''Node_42'' (mbs_nodes mbs)"
  have p: "label_lines pre (0, mbs) = (Inr 0, mbs)"
    using assms lines_unrecognised [of pre "(0, mbs)"] by simp
  have q: "label_lines post (of_bool (fst ?r), mbs\<lparr>mbs_nodes := snd ?r\<rparr>)
      = (Inr (of_bool (fst ?r)), mbs\<lparr>mbs_nodes := snd ?r\<rparr>)"
    using assms lines_unrecognised [of post "(of_bool (fst ?r), mbs\<lparr>mbs_nodes := snd ?r\<rparr>)"] by simp
  have r: "label_lines (pre @ [node_line] @ post) (0, mbs)
      = (Inr (of_bool (fst ?r)), mbs\<lparr>mbs_nodes := snd ?r\<rparr>)"
    using p q node_line_step [OF assms(1), of 0]
    by (simp add: label_lines_append del: append.simps)
  have a: "assign_labels (Some (pre @ [node_line] @ post)) mbs
      = (Inr (if fst ?r then LABELS_UPDATED else NOTHING_DONE), mbs\<lparr>mbs_nodes := snd ?r\<rparr>)"
    unfolding assign_labels_def using r by simp
  show ?thesis
    unfolding a
    by (auto simp: set_label_index_None set_label_index_Some)
qed

text \<open>The theorem on a registry with nodes 5 and 17, and on an empty one.\<close>

theorem assign_labels_node_line_witness:
  "\<not> free_labels two_nodes \<and> \<not> recognised False other_line
   \<and> index_of (\<lambda>x. int_label x = 17) (mbs_nodes two_nodes) = Some 1
   \<and> fst (assign_labels (Some ([other_line] @ [node_line] @ [])) two_nodes) = Inr LABELS_UPDATED
   \<and> map string_label (mbs_nodes (snd (assign_labels (Some ([other_line] @ [node_line] @ [])) two_nodes)))
       = [''none'', ''Node_42'']
   \<and> index_of (\<lambda>x. int_label x = 17) (mbs_nodes mbs0) = None
   \<and> assign_labels (Some ([other_line] @ [node_line] @ [])) mbs0 = (Inr NOTHING_DONE, mbs0)"
proof -
  have f: "\<not> free_labels two_nodes" "\<not> free_labels mbs0" by code_simp+
  have u: "\<not> recognised False other_line" by code_simp
  then have h: "\<forall>l \<in> set [other_line] \<union> set []. \<not> recognised False l" by simp
  have i: "index_of (\<lambda>x. int_label x = 17) (mbs_nodes two_nodes) = Some 1" by code_simp
  have n: "index_of (\<lambda>x. int_label x = 17) (mbs_nodes mbs0) = None" by code_simp
  note t = assign_labels_node_line [OF f(1) h, of 1]
  note t0 = assign_labels_node_line [OF f(2) h, of 1]
  from t i have a: "assign_labels (Some ([other_line] @ [node_line] @ [])) two_nodes =
      (Inr (if string_label (mbs_nodes two_nodes ! 1) \<noteq> ''Node_42'' then LABELS_UPDATED else NOTHING_DONE),
       two_nodes\<lparr>mbs_nodes := (mbs_nodes two_nodes)[1 := (mbs_nodes two_nodes ! 1)\<lparr>string_label := ''Node_42''\<rparr>]\<rparr>)"
    by blast
  have s: "string_label (mbs_nodes two_nodes ! 1) \<noteq> ''Node_42''" by code_simp
  have m: "map string_label ((mbs_nodes two_nodes)[1 := (mbs_nodes two_nodes ! 1)\<lparr>string_label := ''Node_42''\<rparr>])
      = [''none'', ''Node_42'']" by code_simp
  have a1: "fst (assign_labels (Some ([other_line] @ [node_line] @ [])) two_nodes) = Inr LABELS_UPDATED"
    unfolding a using s by simp
  have a2: "map string_label (mbs_nodes (snd (assign_labels (Some ([other_line] @ [node_line] @ [])) two_nodes)))
       = [''none'', ''Node_42'']"
    unfolding a using m by simp
  from t0 n have b: "assign_labels (Some ([other_line] @ [node_line] @ [])) mbs0 = (Inr NOTHING_DONE, mbs0)"
    by blast
  show ?thesis using f(1) u i a1 a2 n b by blast
qed

text \<open>
  Claim C5 as stated fails: the indented line gives node 17 the label \<^verbatim>\<open>Node_42\<close>, not
  \<^verbatim>\<open>42\<close>, and the line without its leading blanks matches no pattern and changes
  nothing.
\<close>

theorem assign_labels_node_line_counterexample:
  "\<not> free_labels two_nodes \<and> int_label (mbs_nodes two_nodes ! 1) = 17
   \<and> string_label (mbs_nodes (snd (assign_labels (Some [node_line]) two_nodes)) ! 1) = ''Node_42''
   \<and> string_label (mbs_nodes (snd (assign_labels (Some [node_line]) two_nodes)) ! 1) \<noteq> ''42''
   \<and> assign_labels (Some [bare_line]) two_nodes = (Inr NOTHING_DONE, two_nodes)
   \<and> string_label (mbs_nodes two_nodes ! 1) = ''none''"
  by code_simp

section \<open>Properties of the interpolation\<close>

subsection \<open>The blend of two rows and the array backend\<close>


lemma map2_same: "length xs = length ys \<Longrightarrow> broadcast xs (length ys) = xs \<or> length xs = 1"
  by (simp add: broadcast_def)

lemma broadcast_same: "broadcast xs (length xs) = xs"
  by (cases xs) (auto simp: broadcast_def)

lemma interp_mov_eq:
  "length s0 = length s1 \<Longrightarrow>
   interp_mov fr s0 s1 = Inr (map2 (\<lambda>a b. fr * a + (1 - fr) * b) s0 s1)"
proof -
  assume l: "length s0 = length s1"
  have a: "broadcast (scale fr s0) (length (scale (1 - fr) s1)) = scale fr s0"
    using l broadcast_same [of "scale fr s0"] by (simp add: scale_def)
  have b: "broadcast (scale (1 - fr) s1) (length (scale fr s0)) = scale (1 - fr) s1"
    using l broadcast_same [of "scale (1 - fr) s1"] by (simp add: scale_def)
  have "map2 (+) (scale fr s0) (scale (1 - fr) s1) = map2 (\<lambda>a b. fr * a + (1 - fr) * b) s0 s1"
    using l by (induction s0 s1 rule: list_induct2) (simp_all add: scale_def)
  then show ?thesis using l a b by (simp add: interp_mov_def array_add_def scale_def)
qed

lemma map2_fst: "length xs = length ys \<Longrightarrow> map2 (\<lambda>a b. a) xs ys = xs"
  by (induction xs ys rule: list_induct2) simp_all

lemma map2_snd: "length xs = length ys \<Longrightarrow> map2 (\<lambda>a b. b) xs ys = ys"
  by (induction xs ys rule: list_induct2) simp_all

lemma frac_range: "0 \<le> of_int \<lceil>t\<rceil> - (t::real) \<and> of_int \<lceil>t\<rceil> - t < 1"
  by linarith

text \<open>
  The expression and the array backend taken alone, with floats read as reals. For rows
  \<open>s0\<close> and \<open>s1\<close> of equal length the expression of the text backend is
  \<open>fr * s0 + (1 - fr) * s1\<close> componentwise, the first row at weight 1, the second at
  weight 0 and a point of the segment between. At a non-negative timestep \<open>t\<close> inside
  the array, \<open>netcdf_helper\<close> reads the samples at \<open>\<lfloor>t\<rfloor>\<close> and \<open>\<lceil>t\<rceil>\<close> and blends them with
  the weight \<open>\<lceil>t\<rceil> - t\<close> on the earlier one.
\<close>

lemma interp_weights:
  "(length s0 = length s1 \<longrightarrow>
      interp_mov fr s0 s1 = Inr (map2 (\<lambda>a b. fr * a + (1 - fr) * b) s0 s1)
      \<and> interp_mov 1 s0 s1 = Inr s0
      \<and> interp_mov 0 s0 s1 = Inr s1
      \<and> (0 < fr \<and> fr < 1 \<longrightarrow>
           (\<exists>u. 0 < u \<and> u < 1 \<and> interp_mov fr s0 s1 = Inr (map2 (\<lambda>a b. a + u * (b - a)) s0 s1))))
   \<and> (0 \<le> of_int fc * freq \<and> \<lceil>of_int fc * freq\<rceil> < int (length v) \<longrightarrow>
      netcdf_helper v fc freq =
        Inr (lerp (v ! nat \<lfloor>of_int fc * freq\<rfloor>) (v ! nat \<lceil>of_int fc * freq\<rceil>)
               (1 - (of_int \<lceil>of_int fc * freq\<rceil> - of_int fc * freq)))
      \<and> 0 \<le> of_int \<lceil>of_int fc * freq\<rceil> - of_int fc * freq
      \<and> of_int \<lceil>of_int fc * freq\<rceil> - of_int fc * freq < 1)
   \<and> lerp p q (1 - w) = (w * fst p + (1 - w) * fst q, w * fst (snd p) + (1 - w) * fst (snd q),
        w * snd (snd p) + (1 - w) * snd (snd q))
   \<and> lerp p q (1 - 1) = p \<and> lerp p q (1 - 0) = q
   \<and> (0 < w \<and> w < 1 \<longrightarrow>
        lerp p q (1 - w) = (fst p + (1 - w) * (fst q - fst p), fst (snd p) + (1 - w) * (fst (snd q) - fst (snd p)),
          snd (snd p) + (1 - w) * (snd (snd q) - snd (snd p))))"
proof (intro conjI impI)
  assume l: "length s0 = length s1"
  show "interp_mov fr s0 s1 = Inr (map2 (\<lambda>a b. fr * a + (1 - fr) * b) s0 s1)"
    by (rule interp_mov_eq [OF l])
  show "interp_mov 1 s0 s1 = Inr s0" using l by (simp add: interp_mov_eq map2_fst)
  show "interp_mov 0 s0 s1 = Inr s1" using l by (simp add: interp_mov_eq map2_snd)
  assume f: "0 < fr \<and> fr < 1"
  have "(\<lambda>a b. fr * a + (1 - fr) * b) = (\<lambda>a b. a + (1 - fr) * (b - a))"
    by (intro ext) (simp add: algebra_simps)
  then have "interp_mov fr s0 s1 = Inr (map2 (\<lambda>a b. a + (1 - fr) * (b - a)) s0 s1)"
    using l by (simp add: interp_mov_eq)
  with f show "\<exists>u. 0 < u \<and> u < 1 \<and> interp_mov fr s0 s1 = Inr (map2 (\<lambda>a b. a + u * (b - a)) s0 s1)"
    by (intro exI [of _ "1 - fr"]) simp
next
  let ?t = "of_int fc * freq :: real"
  assume h: "0 \<le> ?t \<and> \<lceil>?t\<rceil> < int (length v)"
  have c: "0 \<le> \<lceil>?t\<rceil>" using h by linarith
  have fl: "0 \<le> \<lfloor>?t\<rfloor>" "\<lfloor>?t\<rfloor> \<le> \<lceil>?t\<rceil>" using h by linarith+
  have fl2: "\<lfloor>?t\<rfloor> < int (length v)" using h fl by linarith
  show "netcdf_helper v fc freq =
        Inr (lerp (v ! nat \<lfloor>?t\<rfloor>) (v ! nat \<lceil>?t\<rceil>) (1 - (of_int \<lceil>?t\<rceil> - ?t)))"
    using h c fl fl2 by (simp add: netcdf_helper_def sample_def trunc_def Let_def)
  show "0 \<le> of_int \<lceil>?t\<rceil> - ?t" by linarith
  show "of_int \<lceil>?t\<rceil> - ?t < 1" by linarith
next
  show "lerp p q (1 - w) = (w * fst p + (1 - w) * fst q, w * fst (snd p) + (1 - w) * fst (snd q),
        w * snd (snd p) + (1 - w) * snd (snd q))"
    by (simp add: lerp_def split: prod.splits)
  show "lerp p q (1 - 1) = p" by (simp add: lerp_def split: prod.splits)
  show "lerp p q (1 - 0) = q" by (simp add: lerp_def split: prod.splits)
  assume "0 < w \<and> w < 1"
  show "lerp p q (1 - w) = (fst p + (1 - w) * (fst q - fst p), fst (snd p) + (1 - w) * (fst (snd q) - fst (snd p)),
          snd (snd p) + (1 - w) * (snd (snd q) - snd (snd p)))"
    by (simp add: lerp_def algebra_simps split: prod.splits)
qed

subsection \<open>The rows the text backend blends\<close>

text \<open>
  A row blended with itself is that row, at every weight. Every interpolated frame ends
  with \<^verbatim>\<open>first_mov = second_mov\<close>, after which both names are bound to one list; from
  then on the rows written through either name land in that list, and the blend of a
  frame does not depend on its weight.
\<close>

lemma interp_mov_same: "interp_mov fr r r = Inr r"
proof -
  have "map2 (\<lambda>a b. fr * a + (1 - fr) * b) r r = r"
    by (induction r) (simp_all add: algebra_simps)
  then show ?thesis by (simp add: interp_mov_eq)
qed

lemma frame_step_binds:
  "frame_step fl objs freq n frame st = Inr st' \<Longrightarrow> 1 < freq \<Longrightarrow> first_mov st' = second_mov st'"
  by (auto simp: frame_step_def Let_def split: if_splits sum.splits)

lemma blend_rows_bound:
  "first_mov st = second_mov st \<Longrightarrow> blend_rows objs fr ns st = blend_rows objs fr' ns st"
proof (induction ns arbitrary: st)
  case Nil
  then show ?case by simp
next
  case (Cons ndx rest)
  have a: "first_mov (st\<lparr>calls := c\<rparr>) = second_mov (st\<lparr>calls := c\<rparr>)" for c
    using Cons.prems by simp
  show ?case
    using Cons.prems Cons.IH [OF Cons.prems] Cons.IH [OF a]
    by (simp add: interp_mov_same split: sum.splits)
qed

text \<open>
  Claim C3 on the text backend, at a run the code can receive: one node whose row at
  timestep \<open>k\<close> holds the position \<open>(k, 0, 0)\<close>, load frequency 5/2, so that the frames
  after the first are the timesteps 5/2, 5 and 15/2. The claim's rows there have the
  positions 5/2, 5 and 15/2, and \<open>netcdf_helper\<close> gives 15/2 on the same samples at the
  third frame. \<open>set_motion_paths_mov\<close> hands the object the positions 3/2, 5 and 7: the
  first frame blends the rows of timesteps 1 and 2, and at the third frame both names
  are bound to the list that holds the row of timestep 7.
\<close>

theorem set_motion_paths_mov_ramp:
  "map (\<lambda>l. to_floats fl_int (csv_row l)) mov_ramp = map Inr ramp_rows
   \<and> arange (0 + 5 / 2) 10 (5 / 2) = [5 / 2, 5, 15 / 2]
   \<and> calls_of (set_motion_paths_mov fl_int [''Obj1''] (Some mov_ramp) (5 / 2) ramp_mbs scene0)
       = Inr (FINISHED,
           [(''Obj1'', [1, 0, 0, 0, 0, 0, 0]),
            (''Obj1'', [1, 3 / 2, 0, 0, 0, 0, 0]),
            (''Obj1'', [1, 5, 0, 0, 0, 0, 0]),
            (''Obj1'', [1, 7, 0, 0, 0, 0, 0])])
   \<and> map (bracket_blend ramp_rows) [5 / 2, 5, 15 / 2]
       = [[1, 5 / 2, 0, 0, 0, 0, 0], [1, 5, 0, 0, 0, 0, 0], [1, 15 / 2, 0, 0, 0, 0, 0]]
   \<and> netcdf_helper ramp_positions 3 (5 / 2) = Inr (15 / 2, 0, 0)"
  by code_simp

section \<open>The declaration scan of parse_log_file\<close>

subsection \<open>Shape of the tag scan\<close>














subsection \<open>The end of the scan\<close>

















end
